theory Spec2Isabelle
  imports Main "HOL-Library.Sublist"
begin

section \<open>Strings and JavaScript truthiness\<close>

text \<open>
  Strings are lists of 8-bit code units. A JavaScript string is truthy iff it is not
  empty. \<open>String.prototype.trim\<close> removes the white space and line terminator code
  units from both ends; in the 8-bit range these are 9 to 13, 32 and 160.
\<close>

definition truthy :: "string \<Rightarrow> bool" where
  "truthy s = (s \<noteq> [])"

definition is_space :: "char \<Rightarrow> bool" where
  "is_space c = (c \<in> set [CHR 0x09, CHR 0x0A, CHR 0x0B, CHR 0x0C, CHR 0x0D, CHR 0x20, CHR 0xA0])"

definition trim :: "string \<Rightarrow> string" where
  "trim s = rev (dropWhile is_space (rev (dropWhile is_space s)))"

text \<open>
  A value that may be \<open>undefined\<close> (or \<open>null\<close>) is an option; \<open>a || b\<close> on such
  strings yields \<open>a\<close> when it is a non-empty string and \<open>b\<close> otherwise.
\<close>

definition truthy_opt :: "string option \<Rightarrow> bool" where
  "truthy_opt v = (case v of None \<Rightarrow> False | Some s \<Rightarrow> truthy s)"

definition js_or :: "string option \<Rightarrow> string option \<Rightarrow> string option" where
  "js_or a b = (if truthy_opt a then a else b)"

text \<open>\<open>[...new Set(xs)]\<close>: insertion order, the first occurrence of a value is kept.\<close>

definition set_add :: "'a \<Rightarrow> 'a list \<Rightarrow> 'a list" where
  "set_add x s = (if x \<in> set s then s else s @ [x])"

definition new_Set :: "'a list \<Rightarrow> 'a list" where
  "new_Set xs = fold set_add xs []"

section \<open>The question record\<close>

text \<open>
  The logical id of a question is chosen by the caller and is a string or a number
  (an integer here). Fields that may be missing are options; a field that is present has
  the shape the data model gives it, and image references are strings. The fields that
  neither the extractor nor the rewriter reads are carried along in \<open>other_fields\<close>.
\<close>

datatype qid = IdStr string | IdNum int

record content_block =
  ctext :: string
  images :: "string list option"

record answer_option =
  otext :: string
  image_url :: "string option"

record sub_question =
  sq_content :: "content_block option"
  sq_options :: "answer_option list option"

record question =
  id_field :: qid
  qtype :: "string option"
  imageUrl :: "string option"
  content :: "content_block option"
  options :: "answer_option list option"
  comprehension_passage :: "content_block option"
  sub_questions :: "sub_question list option"
  other_fields :: "(string \<times> string) list"

section \<open>The extractor: collectImageUrls (uploadService.js)\<close>

text \<open>
  \<open>question.content?.images\<close> is truthy whenever the list is present (an empty array is
  truthy); \<open>opt.image_url\<close> and \<open>question.imageUrl\<close> are truthy when present and
  not empty.
\<close>

definition content_images :: "content_block option \<Rightarrow> string list" where
  "content_images c =
     (case c of None \<Rightarrow> []
      | Some b \<Rightarrow> (case images b of None \<Rightarrow> [] | Some imgs \<Rightarrow> imgs))"

definition push_if_truthy :: "string option \<Rightarrow> string list" where
  "push_if_truthy v = (case v of None \<Rightarrow> [] | Some u \<Rightarrow> if truthy u then [u] else [])"

definition push_option_images :: "answer_option list option \<Rightarrow> string list" where
  "push_option_images opts =
     (case opts of None \<Rightarrow> []
      | Some os \<Rightarrow> concat (map (\<lambda>opt. push_if_truthy (image_url opt)) os))"

definition push_sub_question_images :: "sub_question list option \<Rightarrow> string list" where
  "push_sub_question_images sqs =
     (case sqs of None \<Rightarrow> []
      | Some ss \<Rightarrow>
          concat (map (\<lambda>subQ. content_images (sq_content subQ) @ push_option_images (sq_options subQ)) ss))"

definition collectImageUrls :: "question \<Rightarrow> string list" where
  "collectImageUrls question =
     (let imageUrls = [];
          imageUrls = imageUrls @ push_if_truthy (imageUrl question);
          imageUrls = imageUrls @ content_images (content question);
          imageUrls = imageUrls @ push_option_images (options question);
          imageUrls = imageUrls @ content_images (comprehension_passage question);
          imageUrls = imageUrls @ push_sub_question_images (sub_questions question)
      in new_Set (filter (\<lambda>url. truthy url \<and> truthy (trim url)) imageUrls))"

text \<open>
  The six locations of the data model, read off as they are (nothing filtered, nothing
  removed): the legacy field, the content images, the image field of each option, the
  passage images and, per sub-question, its content images and its options' image fields.
\<close>

definition option_refs :: "answer_option list option \<Rightarrow> string list" where
  "option_refs opts =
     (case opts of None \<Rightarrow> []
      | Some os \<Rightarrow> concat (map (\<lambda>opt. case image_url opt of None \<Rightarrow> [] | Some u \<Rightarrow> [u]) os))"

definition sub_question_refs :: "sub_question list option \<Rightarrow> string list" where
  "sub_question_refs sqs =
     (case sqs of None \<Rightarrow> []
      | Some ss \<Rightarrow> concat (map (\<lambda>subQ. content_images (sq_content subQ) @ option_refs (sq_options subQ)) ss))"

definition image_refs :: "question \<Rightarrow> string list" where
  "image_refs q =
     (case imageUrl q of None \<Rightarrow> [] | Some u \<Rightarrow> [u]) @ content_images (content q) @
     option_refs (options q) @ content_images (comprehension_passage q) @
     sub_question_refs (sub_questions q)"

section \<open>The rewriter: replaceImageUrls (uploadService.js)\<close>

text \<open>
  The migration record is a JavaScript \<open>Map\<close>: an association list in insertion order,
  in which \<open>set\<close> overwrites the value of a key already present and appends a new key.
\<close>

type_synonym url_map = "(string \<times> string) list"

fun map_set :: "string \<Rightarrow> string \<Rightarrow> url_map \<Rightarrow> url_map" where
  "map_set k v [] = [(k, v)]"
| "map_set k v ((k', v') # m) = (if k = k' then (k, v) # m else (k', v') # map_set k v m)"

definition map_get :: "url_map \<Rightarrow> string \<Rightarrow> string option" where
  "map_get m k = map_of m k"

definition map_has :: "url_map \<Rightarrow> string \<Rightarrow> bool" where
  "map_has m k = (map_of m k \<noteq> None)"

definition map_values :: "url_map \<Rightarrow> string list" where
  "map_values m = map snd m"

text \<open>\<open>s3UrlMap.get(url) || url\<close>\<close>

definition get_or_url :: "url_map \<Rightarrow> string \<Rightarrow> string" where
  "get_or_url m url =
     (case map_get m url of None \<Rightarrow> url | Some v \<Rightarrow> if truthy v then v else url)"

text \<open>The legacy field: \<open>if (x && s3UrlMap.has(x)) x = s3UrlMap.get(x)\<close>.\<close>

definition replace_field :: "url_map \<Rightarrow> string option \<Rightarrow> string option" where
  "replace_field m v =
     (case v of None \<Rightarrow> v
      | Some u \<Rightarrow> if truthy u \<and> map_has m u then map_get m u else v)"

definition replace_content_images :: "url_map \<Rightarrow> content_block option \<Rightarrow> content_block option" where
  "replace_content_images m c =
     (case c of None \<Rightarrow> None
      | Some b \<Rightarrow>
          (case images b of None \<Rightarrow> Some b
           | Some imgs \<Rightarrow> Some (b\<lparr>images := Some (map (get_or_url m) imgs)\<rparr>)))"

definition replace_option :: "url_map \<Rightarrow> answer_option \<Rightarrow> answer_option" where
  "replace_option m opt =
     (case image_url opt of None \<Rightarrow> opt
      | Some u \<Rightarrow> if truthy u \<and> map_has m u then opt\<lparr>image_url := map_get m u\<rparr> else opt)"

definition replace_options :: "url_map \<Rightarrow> answer_option list option \<Rightarrow> answer_option list option" where
  "replace_options m opts = map_option (map (replace_option m)) opts"

definition replace_sub_question :: "url_map \<Rightarrow> sub_question \<Rightarrow> sub_question" where
  "replace_sub_question m subQ =
     (let updatedSubQ = subQ;
          updatedSubQ = updatedSubQ\<lparr>sq_content := replace_content_images m (sq_content updatedSubQ)\<rparr>;
          updatedSubQ = updatedSubQ\<lparr>sq_options := replace_options m (sq_options updatedSubQ)\<rparr>
      in updatedSubQ)"

definition replaceImageUrls :: "question \<Rightarrow> url_map \<Rightarrow> question" where
  "replaceImageUrls question s3UrlMap =
     (let updated = question;
          updated = updated\<lparr>imageUrl := replace_field s3UrlMap (imageUrl updated)\<rparr>;
          updated = updated\<lparr>content := replace_content_images s3UrlMap (content updated)\<rparr>;
          updated = updated\<lparr>options := replace_options s3UrlMap (options updated)\<rparr>;
          updated = updated\<lparr>comprehension_passage :=
                      replace_content_images s3UrlMap (comprehension_passage updated)\<rparr>;
          updated = updated\<lparr>sub_questions :=
                      map_option (map (replace_sub_question s3UrlMap)) (sub_questions updated)\<rparr>
      in updated)"

subsection \<open>The rewriter on the object graph\<close>

text \<open>
  The definitions above read a question as a value. In the program a question is an
  object whose \<open>content\<close>, \<open>comprehension_passage\<close> and sub-question \<open>content\<close>
  fields are references to objects on the heap. \<open>{ ...question }\<close> and \<open>{ ...subQ }\<close>
  copy these references, not the objects, so an assignment to
  \<open>updated.content.images\<close> writes the object that the input question refers to as
  well. The heap holds the content objects; option objects and arrays are only ever
  read and rebuilt (\<open>map\<close>, \<open>{ ...opt, image_url }\<close>), so they stay values.
\<close>

type_synonym addr = nat

type_synonym heap = "addr \<Rightarrow> content_block"

record sub_question_obj =
  ref_sq_content :: "addr option"
  ref_sq_options :: "answer_option list option"

record question_obj =
  ref_id_field :: qid
  ref_qtype :: "string option"
  ref_imageUrl :: "string option"
  ref_content :: "addr option"
  ref_options :: "answer_option list option"
  ref_comprehension_passage :: "addr option"
  ref_sub_questions :: "sub_question_obj list option"
  ref_other_fields :: "(string \<times> string) list"

text \<open>What an object denotes in a heap: every reference followed.\<close>

definition deref_sub_question :: "heap \<Rightarrow> sub_question_obj \<Rightarrow> sub_question" where
  "deref_sub_question h s =
     \<lparr>sq_content = map_option h (ref_sq_content s), sq_options = ref_sq_options s\<rparr>"

definition deref_question :: "heap \<Rightarrow> question_obj \<Rightarrow> question" where
  "deref_question h q =
     \<lparr>id_field = ref_id_field q, qtype = ref_qtype q, imageUrl = ref_imageUrl q,
      content = map_option h (ref_content q), options = ref_options q,
      comprehension_passage = map_option h (ref_comprehension_passage q),
      sub_questions = map_option (map (deref_sub_question h)) (ref_sub_questions q),
      other_fields = ref_other_fields q\<rparr>"

text \<open>\<open>if (x.content?.images) x.content.images = x.content.images.map(...)\<close>\<close>

definition assign_content_images :: "url_map \<Rightarrow> addr option \<Rightarrow> heap \<Rightarrow> heap" where
  "assign_content_images m c h =
     (case c of None \<Rightarrow> h
      | Some a \<Rightarrow>
          (case images (h a) of None \<Rightarrow> h
           | Some imgs \<Rightarrow> h(a := (h a)\<lparr>images := Some (map (get_or_url m) imgs)\<rparr>)))"

definition replace_sub_question_obj :: "url_map \<Rightarrow> sub_question_obj \<Rightarrow> heap \<Rightarrow> sub_question_obj \<times> heap" where
  "replace_sub_question_obj m subQ h =
     (let updatedSubQ = subQ;
          h = assign_content_images m (ref_sq_content updatedSubQ) h;
          updatedSubQ = updatedSubQ\<lparr>ref_sq_options := replace_options m (ref_sq_options updatedSubQ)\<rparr>
      in (updatedSubQ, h))"

fun map_sub_question_objs :: "url_map \<Rightarrow> sub_question_obj list \<Rightarrow> heap \<Rightarrow> sub_question_obj list \<times> heap" where
  "map_sub_question_objs m [] h = ([], h)"
| "map_sub_question_objs m (subQ # rest) h =
     (case replace_sub_question_obj m subQ h of
        (updatedSubQ, h1) \<Rightarrow>
          (case map_sub_question_objs m rest h1 of (us, h2) \<Rightarrow> (updatedSubQ # us, h2)))"

definition replaceImageUrls_obj :: "question_obj \<Rightarrow> url_map \<Rightarrow> heap \<Rightarrow> question_obj \<times> heap" where
  "replaceImageUrls_obj question s3UrlMap h =
     (let updated = question;
          updated = updated\<lparr>ref_imageUrl := replace_field s3UrlMap (ref_imageUrl updated)\<rparr>;
          h = assign_content_images s3UrlMap (ref_content updated) h;
          updated = updated\<lparr>ref_options := replace_options s3UrlMap (ref_options updated)\<rparr>;
          h = assign_content_images s3UrlMap (ref_comprehension_passage updated) h
      in (case ref_sub_questions updated of
            None \<Rightarrow> (updated, h)
          | Some ss \<Rightarrow>
              (case map_sub_question_objs s3UrlMap ss h of
                 (us, h1) \<Rightarrow> (updated\<lparr>ref_sub_questions := Some us\<rparr>, h1))))"

text \<open>
  The content objects a question object refers to. Parsing a JSON body yields a tree: no
  two fields refer to the same object, so these addresses are distinct.
\<close>

definition ref_list :: "addr option \<Rightarrow> addr list" where
  "ref_list c = (case c of None \<Rightarrow> [] | Some a \<Rightarrow> [a])"

definition sub_question_addrs :: "sub_question_obj list \<Rightarrow> addr list" where
  "sub_question_addrs ss = concat (map (\<lambda>s. ref_list (ref_sq_content s)) ss)"

definition content_addrs :: "question_obj \<Rightarrow> addr list" where
  "content_addrs q =
     ref_list (ref_content q) @ ref_list (ref_comprehension_passage q) @
     (case ref_sub_questions q of None \<Rightarrow> [] | Some ss \<Rightarrow> sub_question_addrs ss)"

section \<open>The outside world\<close>

text \<open>
  A thrown value is an \<open>Error\<close> with its message, or some other (non-nullish) value.
  \<open>error.message\<close> of the latter is \<open>undefined\<close>.
\<close>

datatype thrown = Error string | NonError

definition error_message :: "thrown \<Rightarrow> string option" where
  "error_message e = (case e of Error m \<Rightarrow> Some m | NonError \<Rightarrow> None)"

text \<open>
  A stored document: the fields of the question it was built from (its \<open>imageUrl\<close>
  overwritten), the bookkeeping fields, and the identifier \<open>_id\<close> the store assigned.
\<close>

record document =
  oid :: string
  doc_fields :: question
  uploadedAt :: nat
  originalImageUrl :: "string option"
  s3ImageUrl :: "string option"

text \<open>
  A number as \<open>parseInt\<close> returns it: a double that holds an integer (\<open>-0\<close> is \<open>Num 0\<close>,
  the two are equal in a query), an infinity or \<open>NaN\<close>.
\<close>

datatype js_number = Num int | PosInfinity | NegInfinity | NaN

text \<open>
  The operations attempted against the external services: \<open>fetch\<close> of a URL, the
  commands sent to the object store (bucket, key and, for a put, the body), and the
  operations on the questions collection.
\<close>

datatype call =
    Fetch string
  | PutObject string string string
  | DeleteObject string string
  | CountDocuments qid
  | InsertOne document
  | DeleteOne string
  | FindOne js_number

text \<open>
  The world holds the calls attempted so far (oldest first) and the questions collection.
  Each attempt is one tick of time.
\<close>

record world =
  calls :: "call list"
  docs :: "document list"

definition tick :: "world \<Rightarrow> nat" where
  "tick w = length (calls w)"

definition attempt :: "call \<Rightarrow> world \<Rightarrow> world" where
  "attempt c w = w\<lparr>calls := calls w @ [c]\<rparr>"

datatype fetch_result = FetchRejected thrown | FetchResponse bool string string

text \<open>
  What the program does not decide: the configuration, the answers of the network and of
  the two stores (which may differ from tick to tick), the hash of
  \<open>generateImageHash\<close> (over the URL, the time and a random suffix), the identifiers
  and dates the store hands out, the strings that the driver's \<open>ObjectId\<close> constructor
  accepts, and the platform's URL parser (\<open>new URL(s).pathname\<close>, \<open>None\<close> where the
  constructor throws).
\<close>

record env =
  s3BucketName :: "string option"
  region :: "string option"
  fetch_outcome :: "nat \<Rightarrow> string \<Rightarrow> fetch_result"
  sha256_hex :: "nat \<Rightarrow> string \<Rightarrow> string"
  s3_fault :: "nat \<Rightarrow> call \<Rightarrow> thrown option"
  mongo_fault :: "nat \<Rightarrow> call \<Rightarrow> thrown option"
  new_object_id :: "nat \<Rightarrow> string"
  object_id_ok :: "string \<Rightarrow> bool"
  new_date :: "nat \<Rightarrow> nat"
  url_pathname :: "string \<Rightarrow> string option"

text \<open>A template literal prints a missing value as \<open>undefined\<close>.\<close>

definition js_str :: "string option \<Rightarrow> string" where
  "js_str v = (case v of None \<Rightarrow> ''undefined'' | Some s \<Rightarrow> s)"

definition digit_char :: "nat \<Rightarrow> char" where
  "digit_char d = ''0123456789'' ! d"

fun nat_str :: "nat \<Rightarrow> string" where
  "nat_str n = (if n < 10 then [digit_char n] else nat_str (n div 10) @ [digit_char (n mod 10)])"

definition int_str :: "int \<Rightarrow> string" where
  "int_str i = (if i < 0 then CHR ''-'' # nat_str (nat (- i)) else nat_str (nat i))"

definition id_str :: "qid \<Rightarrow> string" where
  "id_str i = (case i of IdStr s \<Rightarrow> s | IdNum n \<Rightarrow> int_str n)"

section \<open>The object store gateway (s3.js)\<close>

text \<open>
  In the gateway \<open>sourceUrl\<close> names the parameter \<open>imageUrl\<close> of the source. The client
  and the bucket name are cached once read; the configuration does not change, so
  \<open>getBucketName\<close> and \<open>getS3Client\<close> are functions of the configuration.
\<close>

definition getBucketName :: "env \<Rightarrow> thrown + string" where
  "getBucketName env =
     (case s3BucketName env of
        None \<Rightarrow> Inl (Error ''S3_BUCKET_NAME not configured. Make sure configuration is initialized.'')
      | Some b \<Rightarrow>
          if truthy b then Inr b
          else Inl (Error ''S3_BUCKET_NAME not configured. Make sure configuration is initialized.''))"

definition getS3Client :: "env \<Rightarrow> thrown + unit" where
  "getS3Client env =
     (if truthy_opt (s3BucketName env) then Inr ()
      else Inl (Error ''S3_BUCKET_NAME not configured. Make sure configuration is initialized.''))"

definition s3_send :: "env \<Rightarrow> world \<Rightarrow> call \<Rightarrow> world \<times> thrown option" where
  "s3_send env w c = (attempt c w, s3_fault env (tick w) c)"

definition file_extension :: "string \<Rightarrow> string" where
  "file_extension sourceUrl =
     (let before_query = takeWhile (\<lambda>c. c \<noteq> CHR ''?'') sourceUrl
      in if CHR ''.'' \<in> set before_query
         then rev (takeWhile (\<lambda>c. c \<noteq> CHR ''.'') (rev before_query))
         else ''jpg'')"

definition generateImageHash :: "env \<Rightarrow> nat \<Rightarrow> string \<Rightarrow> string" where
  "generateImageHash env t sourceUrl =
     ''questions/'' @ sha256_hex env t sourceUrl @ ''.'' @ file_extension sourceUrl"

definition downloadImage :: "env \<Rightarrow> world \<Rightarrow> string \<Rightarrow> world \<times> (thrown + string)" where
  "downloadImage env w sourceUrl =
     (case fetch_outcome env (tick w) sourceUrl of
        FetchRejected e \<Rightarrow> (attempt (Fetch sourceUrl) w, Inl e)
      | FetchResponse ok statusText body \<Rightarrow>
          if \<not> ok
          then (attempt (Fetch sourceUrl) w,
                Inl (Error (''Failed to download image from '' @ sourceUrl @ '': '' @ statusText)))
          else (attempt (Fetch sourceUrl) w, Inr body))"

text \<open>
  The current implementation (lazy client, bucket name checked at first use). A \<open>null\<close>
  or \<open>undefined\<close> argument is \<open>None\<close>.
\<close>

definition uploadImageToS3 :: "env \<Rightarrow> world \<Rightarrow> string option \<Rightarrow> world \<times> (thrown + string)" where
  "uploadImageToS3 env w sourceUrl =
     (if \<not> truthy_opt sourceUrl then (w, Inl (Error ''No image URL provided''))
      else
        (case downloadImage env w (js_str sourceUrl) of
           (w1, Inl e) \<Rightarrow> (w1, Inl e)
         | (w1, Inr imageBuffer) \<Rightarrow>
             (let key = generateImageHash env (tick w1) (js_str sourceUrl)
              in case getBucketName env of
                   Inl e \<Rightarrow> (w1, Inl e)
                 | Inr bucketName \<Rightarrow>
                     (case getS3Client env of
                        Inl e \<Rightarrow> (w1, Inl e)
                      | Inr client \<Rightarrow>
                          (case s3_send env w1 (PutObject bucketName key imageBuffer) of
                             (w2, Some e) \<Rightarrow> (w2, Inl e)
                           | (w2, None) \<Rightarrow>
                               (w2, Inr (''https://'' @ bucketName @ ''.s3.'' @ js_str (region env)
                                          @ ''.amazonaws.com/'' @ key)))))))"

text \<open>The earlier implementation (client and bucket name fixed when the module loads).\<close>

definition uploadImageToS3_eager :: "env \<Rightarrow> world \<Rightarrow> string option \<Rightarrow> world \<times> (thrown + string)" where
  "uploadImageToS3_eager env w sourceUrl =
     (if \<not> truthy_opt sourceUrl then (w, Inl (Error ''No image URL provided''))
      else
        (case downloadImage env w (js_str sourceUrl) of
           (w1, Inl e) \<Rightarrow> (w1, Inl e)
         | (w1, Inr imageBuffer) \<Rightarrow>
             (let key = generateImageHash env (tick w1) (js_str sourceUrl)
              in case s3_send env w1 (PutObject (js_str (s3BucketName env)) key imageBuffer) of
                   (w2, Some e) \<Rightarrow> (w2, Inl e)
                 | (w2, None) \<Rightarrow>
                     (w2, Inr (''https://'' @ js_str (s3BucketName env) @ ''.s3.''
                                @ js_str (region env) @ ''.amazonaws.com/'' @ key)))))"

definition deleteImageFromS3 :: "env \<Rightarrow> world \<Rightarrow> string \<Rightarrow> world \<times> thrown option" where
  "deleteImageFromS3 env w s3Key =
     (if \<not> truthy s3Key then (w, None)
      else
        (case getBucketName env of
           Inl e \<Rightarrow> (w, Some e)
         | Inr bucketName \<Rightarrow>
             (case getS3Client env of
                Inl e \<Rightarrow> (w, Some e)
              | Inr client \<Rightarrow> s3_send env w (DeleteObject bucketName s3Key))))"

definition extractS3Key :: "env \<Rightarrow> string \<Rightarrow> thrown + string" where
  "extractS3Key env s3Url =
     (case url_pathname env s3Url of
        None \<Rightarrow> Inl (Error ''Invalid URL'')
      | Some pathname \<Rightarrow> Inr (drop 1 pathname))"

section \<open>The document store gateway (mongodb.js)\<close>

text \<open>
  A fault of \<open>mongo_fault\<close> stands for whatever makes the operation throw: the
  connection, or the operation itself.
\<close>

definition mongo_call :: "env \<Rightarrow> world \<Rightarrow> call \<Rightarrow> world \<times> thrown option" where
  "mongo_call env w c = (attempt c w, mongo_fault env (tick w) c)"

definition questionExists :: "env \<Rightarrow> world \<Rightarrow> qid \<Rightarrow> world \<times> (thrown + bool)" where
  "questionExists env w questionId =
     (case mongo_call env w (CountDocuments questionId) of
        (w1, Some e) \<Rightarrow> (w1, Inl e)
      | (w1, None) \<Rightarrow>
          (let count = length (filter (\<lambda>d. id_field (doc_fields d) = questionId) (docs w1))
           in (w1, Inr (count > 0))))"

definition saveQuestionToMongoDB ::
  "env \<Rightarrow> world \<Rightarrow> question \<Rightarrow> string option \<Rightarrow> world \<times> (thrown + string)" where
  "saveQuestionToMongoDB env w question s3Url =
     (let document =
            \<lparr>oid = new_object_id env (tick w),
             doc_fields = question\<lparr>imageUrl := js_or s3Url (imageUrl question)\<rparr>,
             uploadedAt = new_date env (tick w),
             originalImageUrl = imageUrl question,
             s3ImageUrl = js_or s3Url (imageUrl question)\<rparr>
      in case mongo_call env w (InsertOne document) of
           (w1, Some e) \<Rightarrow> (w1, Inl e)
         | (w1, None) \<Rightarrow> (w1\<lparr>docs := docs w1 @ [document]\<rparr>, Inr (oid document)))"

text \<open>
  The filter of the deletion is \<open>{ _id: new ObjectId(documentId) }\<close>: for a string that
  the constructor refuses it throws, and \<open>deleteOne\<close> is not called. The message is the
  one of the current driver; a failure to connect, which would be thrown first, is not
  told apart here: either way the function throws and no deletion is sent.
\<close>

definition deleteQuestionFromMongoDB :: "env \<Rightarrow> world \<Rightarrow> string option \<Rightarrow> world \<times> thrown option" where
  "deleteQuestionFromMongoDB env w documentId =
     (if \<not> truthy_opt documentId then (w, None)
      else if \<not> object_id_ok env (js_str documentId)
      then (w, Some (Error ''input must be a 24 character hex string, 12 byte Uint8Array, or an integer''))
      else
        (case mongo_call env w (DeleteOne (js_str documentId)) of
           (w1, Some e) \<Rightarrow> (w1, Some e)
         | (w1, None) \<Rightarrow>
             (w1\<lparr>docs := filter (\<lambda>d. oid d \<noteq> js_str documentId) (docs w1)\<rparr>, None)))"

subsection \<open>getQuestionById and parseInt\<close>

text \<open>
  A number is a double: the integer read from the digits is rounded to the nearest
  integer that has a significand of 53 bits, to the even significand when two are
  equally near, and to an infinity when the rounded value reaches \<open>2 ^ 1024\<close>, that
  is, when it has more than 1024 binary digits.
\<close>

fun bit_length :: "nat \<Rightarrow> nat" where
  "bit_length n = (if n = 0 then 0 else Suc (bit_length (n div 2)))"

definition nearest_double :: "nat \<Rightarrow> nat option" where
  "nearest_double m =
     (let e = bit_length m - 53;
          q = m div 2 ^ e;
          r = m mod 2 ^ e;
          up = (2 ^ e < 2 * r \<or> (2 * r = 2 ^ e \<and> odd q));
          v = (if up then q + 1 else q) * 2 ^ e
      in if bit_length v \<le> 1024 then Some v else None)"

text \<open>
  \<open>parseInt(inputString)\<close> with no radix, on a string: leading white space is skipped, a
  sign is read, a prefix \<open>0x\<close> or \<open>0X\<close> selects radix 16, and the longest run of digits of
  the radix is the value; with no digit the result is \<open>NaN\<close>. The argument of the one
  call in \<open>getQuestionById\<close> is the route parameter \<open>req.params.id\<close> of \<open>GET /:id\<close>, a
  string.
\<close>

definition digit_value :: "char \<Rightarrow> nat option" where
  "digit_value c =
     map_of
       [(CHR ''0'', 0), (CHR ''1'', 1), (CHR ''2'', 2), (CHR ''3'', 3), (CHR ''4'', 4),
        (CHR ''5'', 5), (CHR ''6'', 6), (CHR ''7'', 7), (CHR ''8'', 8), (CHR ''9'', 9),
        (CHR ''a'', 10), (CHR ''b'', 11), (CHR ''c'', 12), (CHR ''d'', 13), (CHR ''e'', 14),
        (CHR ''f'', 15), (CHR ''A'', 10), (CHR ''B'', 11), (CHR ''C'', 12), (CHR ''D'', 13),
        (CHR ''E'', 14), (CHR ''F'', 15)] c"

definition is_digit :: "nat \<Rightarrow> char \<Rightarrow> bool" where
  "is_digit R c = (case digit_value c of None \<Rightarrow> False | Some d \<Rightarrow> d < R)"

definition digits_value :: "nat \<Rightarrow> string \<Rightarrow> nat" where
  "digits_value R Z = foldl (\<lambda>acc c. acc * R + (case digit_value c of None \<Rightarrow> 0 | Some d \<Rightarrow> d)) 0 Z"

definition signed_double :: "int \<Rightarrow> nat \<Rightarrow> js_number" where
  "signed_double sign mathInt =
     (case nearest_double mathInt of
        None \<Rightarrow> if sign < 0 then NegInfinity else PosInfinity
      | Some v \<Rightarrow> Num (sign * int v))"

definition parseInt :: "string \<Rightarrow> js_number" where
  "parseInt inputString =
     (let S = dropWhile is_space inputString;
          sign = (if take 1 S = ''-'' then - 1 else (1::int));
          S = (if take 1 S = ''+'' \<or> take 1 S = ''-'' then drop 1 S else S);
          R = (if take 2 S = ''0x'' \<or> take 2 S = ''0X'' then 16 else (10::nat));
          S = (if take 2 S = ''0x'' \<or> take 2 S = ''0X'' then drop 2 S else S);
          Z = takeWhile (is_digit R) S
      in if Z = [] then NaN else signed_double sign (digits_value R Z))"




section \<open>The upload orchestrator (uploadService.js)\<close>

record failed_image =
  url :: string
  error :: "string option"

record upload_result =
  success :: bool
  message :: string
  s3Urls :: "string list option"
  mongoId :: "string option"
  failedImages :: "failed_image list option"

text \<open>The local bookkeeping of one upload.\<close>

record migration =
  s3UrlMap :: url_map
  uploadedS3Keys :: "string list"
  failedList :: "failed_image list"

definition no_migration :: migration where
  "no_migration = \<lparr>s3UrlMap = [], uploadedS3Keys = [], failedList = []\<rparr>"

text \<open>
  One turn of the loop over the image URLs. The \<open>try\<close> block calls the gateway, records
  the URL in the map and then the key; the \<open>catch\<close> block records the failure.
\<close>

definition migrate_one :: "env \<Rightarrow> string \<Rightarrow> world \<times> migration \<Rightarrow> world \<times> migration" where
  "migrate_one env u ws =
     (case ws of
        (w, st) \<Rightarrow>
          (case uploadImageToS3 env w (Some u) of
             (w1, Inl e) \<Rightarrow> (w1, st\<lparr>failedList := failedList st @ [\<lparr>url = u, error = error_message e\<rparr>]\<rparr>)
           | (w1, Inr s3Url) \<Rightarrow>
               (let st1 = st\<lparr>s3UrlMap := map_set u s3Url (s3UrlMap st)\<rparr>
                in case extractS3Key env s3Url of
                     Inl e \<Rightarrow> (w1, st1\<lparr>failedList := failedList st1 @ [\<lparr>url = u, error = error_message e\<rparr>]\<rparr>)
                   | Inr key \<Rightarrow> (w1, st1\<lparr>uploadedS3Keys := uploadedS3Keys st1 @ [key]\<rparr>))))"

definition migrate :: "env \<Rightarrow> string list \<Rightarrow> world \<times> migration \<Rightarrow> world \<times> migration" where
  "migrate env imageUrls ws = fold (migrate_one env) imageUrls ws"

text \<open>The \<open>catch\<close> block of the upload: the rollback and the failure result.\<close>

definition rollback_mongo :: "env \<Rightarrow> world \<Rightarrow> string option \<Rightarrow> world" where
  "rollback_mongo env w mongo_id =
     (if truthy_opt mongo_id then fst (deleteQuestionFromMongoDB env w mongo_id) else w)"

definition rollback_s3 :: "env \<Rightarrow> world \<Rightarrow> string list \<Rightarrow> world" where
  "rollback_s3 env w keys = fold (\<lambda>s3Key w. fst (deleteImageFromS3 env w s3Key)) keys w"

definition failure_result :: "string \<Rightarrow> upload_result" where
  "failure_result msg =
     \<lparr>success = False, message = msg, s3Urls = None, mongoId = None, failedImages = None\<rparr>"

text \<open>\<open>error instanceof Error ? error.message : 'Unknown error occurred'\<close>\<close>

definition error_text :: "thrown \<Rightarrow> string" where
  "error_text err = (case err of Error m \<Rightarrow> m | NonError \<Rightarrow> ''Unknown error occurred'')"

definition catch_block ::
  "env \<Rightarrow> world \<Rightarrow> thrown \<Rightarrow> string option \<Rightarrow> string list \<Rightarrow> world \<times> upload_result" where
  "catch_block env w err mongo_id keys =
     (let w1 = rollback_mongo env w mongo_id;
          w2 = rollback_s3 env w1 keys;
          errorMessage = error_text err
      in (w2, failure_result (''Upload failed: '' @ errorMessage @ ''. All changes have been rolled back.'')))"

definition success_message :: "failed_image list \<Rightarrow> string" where
  "success_message fl =
     (let message = ''Successfully uploaded to database!''
      in if length fl > 0
         then message @ '' Warning: '' @ nat_str (length fl)
                @ '' image(s) failed to upload to S3. The question was saved with original image URLs.''
         else message)"

text \<open>
  \<open>mongoId\<close> is assigned only when the insert has returned, and nothing after that
  assignment throws: every path into the \<open>catch\<close> block carries \<open>mongoId = undefined\<close>.
  The question is taken as a value: the object handed over is a tree, as the parser of
  the request body builds it, and on a tree the rewriter on the object graph returns what
  the rewriter on values returns (\<open>replaceImageUrls_obj_deref\<close> below).
\<close>

definition uploadQuestionToDB :: "env \<Rightarrow> world \<Rightarrow> question \<Rightarrow> world \<times> upload_result" where
  "uploadQuestionToDB env w question =
     (case questionExists env w (id_field question) of
        (w1, Inl e) \<Rightarrow> catch_block env w1 e None []
      | (w1, Inr exists) \<Rightarrow>
          if exists
          then (w1, failure_result (''Question '' @ id_str (id_field question)
                  @ '' already exists in database. Please delete it first or use a different question.''))
          else
            (let imageUrls = collectImageUrls question
             in case migrate env imageUrls (w1, no_migration) of
                  (w2, st) \<Rightarrow>
                    (let questionWithS3Urls = replaceImageUrls question (s3UrlMap st)
                     in case saveQuestionToMongoDB env w2 questionWithS3Urls
                               (case imageUrl question of None \<Rightarrow> None
                                | Some u \<Rightarrow> map_get (s3UrlMap st) u) of
                          (w3, Inl e) \<Rightarrow> catch_block env w3 e None (uploadedS3Keys st)
                        | (w3, Inr mongo_id) \<Rightarrow>
                            (w3, \<lparr>success = True, message = success_message (failedList st),
                                  s3Urls = Some (map_values (s3UrlMap st)),
                                  mongoId = Some mongo_id,
                                  failedImages = (if length (failedList st) > 0 then Some (failedList st) else None)\<rparr>))))"

subsection \<open>The batch\<close>

text \<open>
  An element of the \<open>questions\<close> array of a request body may be \<open>null\<close> instead of a
  question object: the batch route checks that the array is there and not empty, and
  does not look at its elements. The first statement of \<open>uploadQuestionToDB\<close>, the log line that
  reads \<open>question.id\<close>, stands before the \<open>try\<close>: on \<open>null\<close> it throws a \<open>TypeError\<close>
  that the function does not catch. On a question object it reads the id and the
  function goes on as above.
\<close>

definition uploadQuestionToDB_call ::
  "env \<Rightarrow> world \<Rightarrow> question option \<Rightarrow> world \<times> (thrown + upload_result)" where
  "uploadQuestionToDB_call env w question =
     (case question of
        None \<Rightarrow> (w, Inl (Error ''Cannot read properties of null (reading 'id')''))
      | Some q \<Rightarrow> (case uploadQuestionToDB env w q of (w1, result) \<Rightarrow> (w1, Inr result)))"

record batch_result =
  successful :: nat
  failed :: nat
  results :: "upload_result list"

text \<open>The loop has no handler of its own: what a call throws leaves the loop.\<close>

fun batch_loop ::
  "env \<Rightarrow> question option list \<Rightarrow> world \<times> batch_result \<Rightarrow> world \<times> (thrown + batch_result)" where
  "batch_loop env [] (w, b) = (w, Inr b)"
| "batch_loop env (question # rest) (w, b) =
     (case uploadQuestionToDB_call env w question of
        (w1, Inl e) \<Rightarrow> (w1, Inl e)
      | (w1, Inr result) \<Rightarrow>
          batch_loop env rest
            (w1, if success result
                 then b\<lparr>results := results b @ [result], successful := successful b + 1\<rparr>
                 else b\<lparr>results := results b @ [result], failed := failed b + 1\<rparr>))"

definition uploadMultipleQuestions ::
  "env \<Rightarrow> world \<Rightarrow> question option list \<Rightarrow> world \<times> (thrown + batch_result)" where
  "uploadMultipleQuestions env w questions =
     batch_loop env questions (w, \<lparr>successful = 0, failed = 0, results = []\<rparr>)"

text \<open>
  The batch in the words of its contract: the questions are taken one by one, in order;
  each is run in the world its predecessors left behind, and its result is kept.
\<close>

fun one_by_one :: "env \<Rightarrow> world \<Rightarrow> question list \<Rightarrow> world \<times> upload_result list" where
  "one_by_one env w [] = (w, [])"
| "one_by_one env w (q # qs) =
     (case uploadQuestionToDB env w q of
        (w1, r) \<Rightarrow> (case one_by_one env w1 qs of (w2, rs) \<Rightarrow> (w2, r # rs)))"

section \<open>Observing one upload\<close>

text \<open>
  The answers the gateway gives, in turn, to the uploads of the given URLs, the first
  one attempted in the given world.
\<close>

fun upload_outcomes :: "env \<Rightarrow> world \<Rightarrow> string list \<Rightarrow> (thrown + string) list" where
  "upload_outcomes env w [] = []"
| "upload_outcomes env w (u # us) =
     snd (uploadImageToS3 env w (Some u)) # upload_outcomes env (fst (uploadImageToS3 env w (Some u))) us"

fun upload_worlds :: "env \<Rightarrow> world \<Rightarrow> string list \<Rightarrow> world" where
  "upload_worlds env w [] = w"
| "upload_worlds env w (u # us) = upload_worlds env (fst (uploadImageToS3 env w (Some u))) us"

text \<open>
  An answer is parsed when it is an error, or a URL that the platform's parser accepts;
  it is readable when, moreover, the path is longer than the leading slash, so that the
  key is not empty.
\<close>

definition parsed_url :: "env \<Rightarrow> thrown + string \<Rightarrow> bool" where
  "parsed_url env r =
     (case r of Inl e \<Rightarrow> True
      | Inr s \<Rightarrow> (case url_pathname env s of None \<Rightarrow> False | Some p \<Rightarrow> True))"

definition readable_url :: "env \<Rightarrow> thrown + string \<Rightarrow> bool" where
  "readable_url env r =
     (case r of Inl e \<Rightarrow> True
      | Inr s \<Rightarrow> (case url_pathname env s of None \<Rightarrow> False | Some p \<Rightarrow> 1 < length p))"

definition key_of :: "env \<Rightarrow> string \<Rightarrow> string" where
  "key_of env s = (case extractS3Key env s of Inl e \<Rightarrow> [] | Inr k \<Rightarrow> k)"

text \<open>The references that were migrated, with their object-store URLs, and those that were not.\<close>

definition migrated :: "string list \<Rightarrow> (thrown + string) list \<Rightarrow> (string \<times> string) list" where
  "migrated urls outs =
     concat (map (\<lambda>(u, r). case r of Inl e \<Rightarrow> [] | Inr s \<Rightarrow> [(u, s)]) (zip urls outs))"

definition not_migrated :: "string list \<Rightarrow> (thrown + string) list \<Rightarrow> failed_image list" where
  "not_migrated urls outs =
     concat (map (\<lambda>(u, r). case r of Inl e \<Rightarrow> [\<lparr>url = u, error = error_message e\<rparr>] | Inr s \<Rightarrow> [])
               (zip urls outs))"

text \<open>What a reference becomes: its object-store URL if it was migrated, itself otherwise.\<close>

definition resolved :: "string list \<Rightarrow> (thrown + string) list \<Rightarrow> string \<Rightarrow> string" where
  "resolved urls outs u = (case map_of (zip urls outs) u of Some (Inr s) \<Rightarrow> s | _ \<Rightarrow> u)"

text \<open>The stages of \<open>uploadQuestionToDB\<close> past the duplicate check.\<close>

definition after_check :: "world \<Rightarrow> question \<Rightarrow> world" where
  "after_check w q = attempt (CountDocuments (id_field q)) w"

definition migration_run :: "env \<Rightarrow> world \<Rightarrow> question \<Rightarrow> world \<times> migration" where
  "migration_run env w q = migrate env (collectImageUrls q) (after_check w q, no_migration)"

definition insert_run :: "env \<Rightarrow> world \<Rightarrow> question \<Rightarrow> world \<times> (thrown + string)" where
  "insert_run env w q =
     (case migration_run env w q of
        (w2, st) \<Rightarrow>
          saveQuestionToMongoDB env w2 (replaceImageUrls q (s3UrlMap st))
            (case imageUrl q of None \<Rightarrow> None | Some u \<Rightarrow> map_get (s3UrlMap st) u))"

definition run_outcomes :: "env \<Rightarrow> world \<Rightarrow> question \<Rightarrow> (thrown + string) list" where
  "run_outcomes env w q = upload_outcomes env (after_check w q) (collectImageUrls q)"

section \<open>Scenarios\<close>

text \<open>
  Concrete questions, environments and worlds on which the theorems below are run.
  \<open>https_pathname\<close> is the path of an \<open>https\<close> URL without user info, port or dot
  segments: from the first slash after the host up to the query or fragment.
\<close>

definition blank_question :: "qid \<Rightarrow> question" where
  "blank_question i =
     \<lparr>id_field = i, qtype = None, imageUrl = None, content = None, options = None,
      comprehension_passage = None, sub_questions = None, other_fields = []\<rparr>"

definition https_pathname :: "string \<Rightarrow> string option" where
  "https_pathname s =
     (if take 8 s = ''https://''
      then Some (takeWhile (\<lambda>c. c \<noteq> CHR ''?'' \<and> c \<noteq> CHR ''#'')
                   (dropWhile (\<lambda>c. c \<noteq> CHR ''/'') (drop 8 s)))
      else None)"

definition env_ok :: env where
  "env_ok =
     \<lparr>s3BucketName = Some ''bucket'', region = Some ''r1'',
      fetch_outcome = (\<lambda>t u. FetchResponse True ''OK'' ''bytes''),
      sha256_hex = (\<lambda>t u. ''h'' @ nat_str t),
      s3_fault = (\<lambda>t c. None),
      mongo_fault = (\<lambda>t c. None),
      new_object_id = (\<lambda>t. ''oid'' @ nat_str t),
      object_id_ok = (\<lambda>s. take 3 s = ''oid''),
      new_date = (\<lambda>t. t),
      url_pathname = https_pathname\<rparr>"

definition w0 :: world where
  "w0 = \<lparr>calls = [], docs = []\<rparr>"

definition q_padded :: question where
  "q_padded = (blank_question (IdStr ''q1''))\<lparr>imageUrl := Some '' http://x/a.png''\<rparr>"

definition q_six :: question where
  "q_six = (blank_question (IdStr ''q6''))
     \<lparr>imageUrl := Some ''http://x/legacy.png'',
      content := Some \<lparr>ctext = ''c'', images = Some [''http://x/c.png'', '''', ''http://x/legacy.png'']\<rparr>,
      options := Some [\<lparr>otext = ''A'', image_url = Some ''http://x/o.png''\<rparr>,
                       \<lparr>otext = ''B'', image_url = Some ''''\<rparr>,
                       \<lparr>otext = ''C'', image_url = None\<rparr>],
      comprehension_passage := Some \<lparr>ctext = ''p'', images = Some [''  '', ''http://x/p.png'']\<rparr>,
      sub_questions :=
        Some [\<lparr>sq_content = Some \<lparr>ctext = ''s'', images = Some [''http://x/s.png'']\<rparr>,
               sq_options = Some [\<lparr>otext = ''A'', image_url = Some ''http://x/so.png''\<rparr>]\<rparr>,
              \<lparr>sq_content = None, sq_options = None\<rparr>]\<rparr>"

definition q_legacy :: question where
  "q_legacy = (blank_question (IdStr ''q1''))\<lparr>imageUrl := Some ''http://x/a.png''\<rparr>"

text \<open>A question object whose content block lives at address 0 of the heap.\<close>

definition heap0 :: heap where
  "heap0 = (\<lambda>a. \<lparr>ctext = [], images = None\<rparr>)(0 := \<lparr>ctext = ''text'', images = Some [''http://x/a.png'']\<rparr>)"

definition qobj0 :: question_obj where
  "qobj0 =
     \<lparr>ref_id_field = IdStr ''q1'', ref_qtype = None, ref_imageUrl = None, ref_content = Some 0,
      ref_options = None, ref_comprehension_passage = None, ref_sub_questions = None,
      ref_other_fields = []\<rparr>"

definition map0 :: url_map where
  "map0 = [(''http://x/a.png'', ''https://bucket.s3.r1.amazonaws.com/questions/h2.png'')]"

text \<open>A collection that holds one question with the string id \<open>q1\<close>.\<close>

definition doc_q1 :: document where
  "doc_q1 =
     \<lparr>oid = ''oid1'', doc_fields = blank_question (IdStr ''q1''), uploadedAt = 1,
      originalImageUrl = None, s3ImageUrl = None\<rparr>"

definition w_q1 :: world where
  "w_q1 = \<lparr>calls = [], docs = [doc_q1]\<rparr>"



definition q_plain :: question where
  "q_plain = blank_question (IdStr ''q2'')"

text \<open>
  A question with two images; an environment in which every insert and every deletion
  from the object store fails; an environment in which \<open>http://x/b.png\<close> cannot be
  fetched.
\<close>

definition q_two :: question where
  "q_two = (blank_question (IdStr ''q3''))
     \<lparr>content := Some \<lparr>ctext = ''c'', images = Some [''http://x/a.png'', ''http://x/b.png'']\<rparr>\<rparr>"

definition env_insert_fails :: env where
  "env_insert_fails = env_ok
     \<lparr>s3_fault := (\<lambda>t c. case c of DeleteObject b k \<Rightarrow> Some (Error ''AccessDenied'') | _ \<Rightarrow> None),
      mongo_fault := (\<lambda>t c. case c of InsertOne d \<Rightarrow> Some (Error ''connection lost'') | _ \<Rightarrow> None)\<rparr>"

text \<open>
  The path of an \<open>https\<close> URL as the URL parser of the platform gives it, dot segments
  included: the path is cut at the slashes, a segment \<open>.\<close> or \<open>%2e\<close> is dropped, a
  segment \<open>..\<close> (also written \<open>.%2e\<close>, \<open>%2e.\<close> or \<open>%2e%2e\<close>, in either case of the
  letter) removes the segment before it, and a dot segment at the end leaves an empty
  segment behind.
\<close>

fun split_on :: "char \<Rightarrow> string \<Rightarrow> string list" where
  "split_on c [] = [[]]"
| "split_on c (x # xs) =
     (if x = c then [] # split_on c xs
      else (case split_on c xs of [] \<Rightarrow> [[x]] | s # ss \<Rightarrow> (x # s) # ss))"

definition lower_e :: "string \<Rightarrow> string" where
  "lower_e s = map (\<lambda>c. if c = CHR ''E'' then CHR ''e'' else c) s"

definition is_single_dot :: "string \<Rightarrow> bool" where
  "is_single_dot seg = (lower_e seg = ''.'' \<or> lower_e seg = ''%2e'')"

definition is_double_dot :: "string \<Rightarrow> bool" where
  "is_double_dot seg =
     (lower_e seg = ''..'' \<or> lower_e seg = ''.%2e'' \<or> lower_e seg = ''%2e.'' \<or> lower_e seg = ''%2e%2e'')"

fun shorten_path :: "string list \<Rightarrow> string list \<Rightarrow> string list" where
  "shorten_path [] path = path"
| "shorten_path (seg # rest) path =
     (if is_double_dot seg
      then shorten_path rest (if rest = [] then butlast path @ [[]] else butlast path)
      else if is_single_dot seg
      then shorten_path rest (if rest = [] then path @ [[]] else path)
      else shorten_path rest (path @ [seg]))"

definition whatwg_pathname :: "string \<Rightarrow> string option" where
  "whatwg_pathname s =
     (if take 8 s = ''https://''
      then (let raw = takeWhile (\<lambda>c. c \<noteq> CHR ''?'' \<and> c \<noteq> CHR ''#'')
                        (dropWhile (\<lambda>c. c \<noteq> CHR ''/'') (drop 8 s));
                path = shorten_path (split_on (CHR ''/'') (drop 1 raw)) []
            in Some (concat (map (\<lambda>seg. CHR ''/'' # seg) path)))
      else None)"

text \<open>
  The environment in which every insert fails, with that parser; a question whose one
  image is at a URL that ends in two encoded dot segments after its last full stop.
\<close>

definition env_dot_segments :: env where
  "env_dot_segments = env_insert_fails\<lparr>url_pathname := whatwg_pathname\<rparr>"

definition q_dot_segments :: question where
  "q_dot_segments = (blank_question (IdStr ''q4''))
     \<lparr>content := Some \<lparr>ctext = ''c'', images = Some [''http://x/a.x/%2e%2e/%2e%2e'']\<rparr>\<rparr>"

definition env_b_unreachable :: env where
  "env_b_unreachable = env_ok
     \<lparr>fetch_outcome :=
        (\<lambda>t u. if u = ''http://x/b.png'' then FetchResponse False ''Not Found'' ''''
                else FetchResponse True ''OK'' ''bytes'')\<rparr>"

section \<open>Properties of the extractor\<close>

declare nat_str.simps [simp del]

declare bit_length.simps [simp del]

lemma set_fold_set_add: "set (fold set_add xs acc) = set acc \<union> set xs"
  by (induction xs arbitrary: acc) (auto simp: set_add_def)

lemma distinct_fold_set_add: "distinct acc \<Longrightarrow> distinct (fold set_add xs acc)"
  by (induction xs arbitrary: acc) (auto simp: set_add_def)

lemma set_new_Set: "set (new_Set xs) = set xs"
  by (simp add: new_Set_def set_fold_set_add)

lemma distinct_new_Set: "distinct (new_Set xs)"
  by (simp add: new_Set_def distinct_fold_set_add)

lemma trim_Nil: "trim [] = []"
  by (simp add: trim_def)

lemma set_push_if_truthy:
  "{u \<in> set (push_if_truthy v). trim u \<noteq> []} =
   {u \<in> set (case v of None \<Rightarrow> [] | Some u \<Rightarrow> [u]). trim u \<noteq> []}"
  by (auto simp: push_if_truthy_def truthy_def trim_Nil split: option.splits)

lemma set_push_option_images:
  "{u \<in> set (push_option_images opts). trim u \<noteq> []} = {u \<in> set (option_refs opts). trim u \<noteq> []}"
  by (cases opts)
    (auto simp: push_option_images_def option_refs_def push_if_truthy_def truthy_def trim_Nil
          split: option.splits if_splits)

lemma set_push_sub_question_images:
  "{u \<in> set (push_sub_question_images sqs). trim u \<noteq> []} =
   {u \<in> set (sub_question_refs sqs). trim u \<noteq> []}"
  using set_push_option_images
  by (cases sqs) (auto simp: push_sub_question_images_def sub_question_refs_def)

lemma distinct_collectImageUrls: "distinct (collectImageUrls q)"
  by (simp add: collectImageUrls_def distinct_new_Set)

lemma set_collectImageUrls:
  "set (collectImageUrls q) = {u \<in> set (image_refs q). trim u \<noteq> []}"
proof -
  have "set (collectImageUrls q) =
      {u \<in> set (push_if_truthy (imageUrl q)). trim u \<noteq> []} \<union>
      {u \<in> set (content_images (content q)). trim u \<noteq> []} \<union>
      {u \<in> set (push_option_images (options q)). trim u \<noteq> []} \<union>
      {u \<in> set (content_images (comprehension_passage q)). trim u \<noteq> []} \<union>
      {u \<in> set (push_sub_question_images (sub_questions q)). trim u \<noteq> []}"
    by (auto simp: collectImageUrls_def set_new_Set truthy_def trim_Nil)
  also have "\<dots> = {u \<in> set (image_refs q). trim u \<noteq> []}"
    unfolding set_push_if_truthy set_push_option_images set_push_sub_question_images
    by (auto simp: image_refs_def)
  finally show ?thesis .
qed

text \<open>
  C5, as the code has it. The extractor returns a duplicate-free list whose members are
  exactly the strings found at the six locations that are not empty and not white space
  only. The strings are returned as they stand in the question: white space around a
  reference is not removed, and two references that differ only in such white space are
  both returned. On a question whose fields are missing the list is empty.
\<close>

theorem collectImageUrls_distinct_nonblank:
  "distinct (collectImageUrls q) \<and>
   set (collectImageUrls q) = {u \<in> set (image_refs q). trim u \<noteq> []} \<and>
   collectImageUrls (blank_question i) = []"
proof -
  have "collectImageUrls (blank_question i) = []"
    by (simp add: collectImageUrls_def blank_question_def push_if_truthy_def content_images_def
        push_option_images_def push_sub_question_images_def new_Set_def)
  then show ?thesis
    using distinct_collectImageUrls set_collectImageUrls by simp
qed

theorem collectImageUrls_distinct_nonblank_witness:
  "distinct (collectImageUrls q_six) \<and>
   set (collectImageUrls q_six) =
     {''http://x/legacy.png'', ''http://x/c.png'', ''http://x/o.png'', ''http://x/p.png'',
      ''http://x/s.png'', ''http://x/so.png''}"
proof -
  have "collectImageUrls q_six =
     [''http://x/legacy.png'', ''http://x/c.png'', ''http://x/o.png'', ''http://x/p.png'',
      ''http://x/s.png'', ''http://x/so.png'']"
    by code_simp
  then show ?thesis
    using collectImageUrls_distinct_nonblank [of q_six] by simp
qed

text \<open>
  C5, as stated, asks for white-space-trimmed strings. A legacy reference with a leading
  blank is returned with the blank.
\<close>

theorem collectImageUrls_untrimmed_counterexample:
  "collectImageUrls q_padded = ['' http://x/a.png''] \<and>
   trim '' http://x/a.png'' = ''http://x/a.png'' \<and>
   trim '' http://x/a.png'' \<noteq> '' http://x/a.png''"
  by code_simp

section \<open>The guard of uploadImageToS3\<close>

text \<open>
  C10. Called with an empty string, \<open>null\<close> or \<open>undefined\<close>, both implementations of
  \<open>uploadImageToS3\<close> throw the error \<open>No image URL provided\<close> and leave the world as it
  was: nothing is fetched and nothing is sent to the object store.
\<close>

theorem uploadImageToS3_falsy_url:
  assumes "sourceUrl = None \<or> sourceUrl = Some ''''"
  shows "uploadImageToS3 env w sourceUrl = (w, Inl (Error ''No image URL provided'')) \<and>
         uploadImageToS3_eager env w sourceUrl = (w, Inl (Error ''No image URL provided''))"
  using assms
  by (auto simp: uploadImageToS3_def uploadImageToS3_eager_def truthy_opt_def truthy_def)

theorem uploadImageToS3_falsy_url_witness:
  "uploadImageToS3 env_ok w0 (Some '''') = (w0, Inl (Error ''No image URL provided'')) \<and>
   uploadImageToS3_eager env_ok w0 (Some '''') = (w0, Inl (Error ''No image URL provided'')) \<and>
   uploadImageToS3 env_ok w0 None = (w0, Inl (Error ''No image URL provided'')) \<and>
   uploadImageToS3_eager env_ok w0 None = (w0, Inl (Error ''No image URL provided'')) \<and>
   calls w0 = []"
  using uploadImageToS3_falsy_url [of "Some ''''" env_ok w0]
        uploadImageToS3_falsy_url [of None env_ok w0]
  by (simp add: w0_def)

section \<open>Duplicate ids\<close>

lemma questionExists_found:
  assumes "mongo_fault env (tick w) (CountDocuments i) = None"
    and "\<exists>d\<in>set (docs w). id_field (doc_fields d) = i"
  shows "questionExists env w i = (attempt (CountDocuments i) w, Inr True)"
proof -
  from assms(2) have "filter (\<lambda>d. id_field (doc_fields d) = i) (docs w) \<noteq> []"
    by (simp add: filter_empty_conv)
  with assms(1) show ?thesis
    by (simp add: questionExists_def mongo_call_def attempt_def)
qed

lemma questionExists_not_found:
  assumes "mongo_fault env (tick w) (CountDocuments i) = None"
    and "\<forall>d\<in>set (docs w). id_field (doc_fields d) \<noteq> i"
  shows "questionExists env w i = (attempt (CountDocuments i) w, Inr False)"
proof -
  from assms(2) have "filter (\<lambda>d. id_field (doc_fields d) = i) (docs w) = []"
    by (simp add: filter_empty_conv)
  with assms(1) show ?thesis
    by (simp add: questionExists_def mongo_call_def attempt_def)
qed

lemma questionExists_fault:
  assumes "mongo_fault env (tick w) (CountDocuments i) = Some e"
  shows "questionExists env w i = (attempt (CountDocuments i) w, Inl e)"
  using assms by (simp add: questionExists_def mongo_call_def)

text \<open>
  C2. When the existence query answers and some stored document has the id of the
  question, the upload returns at once a failure result (it does not throw: the
  function is total and the \<open>catch\<close> block is not entered) whose message holds the id and
  the words \<open>already exists\<close>. The only call attempted is the existence query: nothing
  is fetched, nothing is sent to the object store, nothing is inserted or deleted, and
  the collection is as it was.
\<close>

theorem duplicate_id_rejected:
  assumes "mongo_fault env (tick w) (CountDocuments (id_field q)) = None"
    and "\<exists>d\<in>set (docs w). id_field (doc_fields d) = id_field q"
  shows "success (snd (uploadQuestionToDB env w q)) = False \<and>
         message (snd (uploadQuestionToDB env w q)) =
           ''Question '' @ id_str (id_field q) @
           '' already exists in database. Please delete it first or use a different question.'' \<and>
         sublist (id_str (id_field q)) (message (snd (uploadQuestionToDB env w q))) \<and>
         sublist ''already exists'' (message (snd (uploadQuestionToDB env w q))) \<and>
         s3Urls (snd (uploadQuestionToDB env w q)) = None \<and>
         mongoId (snd (uploadQuestionToDB env w q)) = None \<and>
         calls (fst (uploadQuestionToDB env w q)) = calls w @ [CountDocuments (id_field q)] \<and>
         docs (fst (uploadQuestionToDB env w q)) = docs w"
proof -
  let ?msg = "''Question '' @ id_str (id_field q) @
           '' already exists in database. Please delete it first or use a different question.''"
  have run: "uploadQuestionToDB env w q = (attempt (CountDocuments (id_field q)) w, failure_result ?msg)"
    using questionExists_found [OF assms] by (simp add: uploadQuestionToDB_def)
  have "?msg = ''Question '' @ id_str (id_field q) @
      '' already exists in database. Please delete it first or use a different question.''"
    by simp
  then have s1: "sublist (id_str (id_field q)) ?msg"
    unfolding sublist_def by blast
  have "?msg = (''Question '' @ id_str (id_field q) @ '' '') @ ''already exists'' @
      '' in database. Please delete it first or use a different question.''"
    by simp
  then have s2: "sublist ''already exists'' ?msg"
    unfolding sublist_def by blast
  show ?thesis
    unfolding run using s1 s2 by (simp add: failure_result_def attempt_def)
qed

theorem duplicate_id_rejected_witness:
  "mongo_fault env_ok (tick w_q1) (CountDocuments (id_field q_legacy)) = None \<and>
   (\<exists>d\<in>set (docs w_q1). id_field (doc_fields d) = id_field q_legacy) \<and>
   success (snd (uploadQuestionToDB env_ok w_q1 q_legacy)) = False \<and>
   message (snd (uploadQuestionToDB env_ok w_q1 q_legacy)) =
     ''Question q1 already exists in database. Please delete it first or use a different question.'' \<and>
   calls (fst (uploadQuestionToDB env_ok w_q1 q_legacy)) = [CountDocuments (IdStr ''q1'')] \<and>
   docs (fst (uploadQuestionToDB env_ok w_q1 q_legacy)) = [doc_q1]"
proof -
  have h1: "mongo_fault env_ok (tick w_q1) (CountDocuments (id_field q_legacy)) = None"
    by (simp add: env_ok_def)
  have h2: "\<exists>d\<in>set (docs w_q1). id_field (doc_fields d) = id_field q_legacy"
    by (simp add: w_q1_def doc_q1_def q_legacy_def blank_question_def)
  have v: "id_field q_legacy = IdStr ''q1''" "id_str (id_field q_legacy) = ''q1''"
    "calls w_q1 = []" "docs w_q1 = [doc_q1]"
    by (simp_all add: q_legacy_def blank_question_def id_str_def w_q1_def)
  show ?thesis
    using h1 h2 duplicate_id_rejected [OF h1 h2] by (simp add: v id_str_def)
qed

section \<open>The bookkeeping fields of the stored document\<close>

text \<open>
  C6 describes the insert rightly, and \<open>saveQuestionToMongoDB\<close> stores as
  \<open>originalImageUrl\<close> the \<open>imageUrl\<close> of the question it is handed. The orchestrator
  hands it the rewritten question, so after a migration of the legacy image the stored
  \<open>originalImageUrl\<close> is the object-store URL, not the caller's URL
  \<open>http://x/a.png\<close>.
\<close>

theorem originalImageUrl_after_migration:
  "imageUrl q_legacy = Some ''http://x/a.png'' \<and>
   success (snd (uploadQuestionToDB env_ok w0 q_legacy)) \<and>
   s3Urls (snd (uploadQuestionToDB env_ok w0 q_legacy)) =
     Some [''https://bucket.s3.r1.amazonaws.com/questions/h2.png''] \<and>
   map originalImageUrl (docs (fst (uploadQuestionToDB env_ok w0 q_legacy))) =
     [Some ''https://bucket.s3.r1.amazonaws.com/questions/h2.png''] \<and>
   map s3ImageUrl (docs (fst (uploadQuestionToDB env_ok w0 q_legacy))) =
     [Some ''https://bucket.s3.r1.amazonaws.com/questions/h2.png'']"
  by code_simp

section \<open>The rewriter on values and on the object graph\<close>

lemma assign_content_images_other:
  "a \<notin> set (ref_list c) \<Longrightarrow> assign_content_images m c h a = h a"
  by (auto simp: assign_content_images_def ref_list_def split: option.splits)

lemma assign_content_images_at:
  "map_option (assign_content_images m c h) c = replace_content_images m (map_option h c)"
  by (auto simp: assign_content_images_def replace_content_images_def split: option.splits)

lemma deref_sub_question_cong:
  "(\<And>a. a \<in> set (ref_list (ref_sq_content s)) \<Longrightarrow> h a = h' a) \<Longrightarrow>
   deref_sub_question h s = deref_sub_question h' s"
  by (cases "ref_sq_content s") (simp_all add: deref_sub_question_def ref_list_def)

lemma map_sub_question_objs_Cons:
  "map_sub_question_objs m (s # ss) h =
     (s\<lparr>ref_sq_options := replace_options m (ref_sq_options s)\<rparr> #
        fst (map_sub_question_objs m ss (assign_content_images m (ref_sq_content s) h)),
      snd (map_sub_question_objs m ss (assign_content_images m (ref_sq_content s) h)))"
  by (simp add: replace_sub_question_obj_def Let_def split: prod.splits)

lemma map_sub_question_objs_other:
  "a \<notin> set (sub_question_addrs ss) \<Longrightarrow> snd (map_sub_question_objs m ss h) a = h a"
proof (induction ss arbitrary: h)
  case Nil
  then show ?case by simp
next
  case (Cons s ss)
  then have "a \<notin> set (ref_list (ref_sq_content s))" and "a \<notin> set (sub_question_addrs ss)"
    by (simp_all add: sub_question_addrs_def)
  then show ?case
    using Cons.IH [of "assign_content_images m (ref_sq_content s) h"]
    by (simp add: map_sub_question_objs_Cons assign_content_images_other
        del: map_sub_question_objs.simps(2))
qed

lemma replace_sub_question_obj_deref:
  "deref_sub_question (snd (replace_sub_question_obj m s h)) (fst (replace_sub_question_obj m s h)) =
   replace_sub_question m (deref_sub_question h s)"
  using assign_content_images_at [of m "ref_sq_content s" h]
  by (simp add: replace_sub_question_obj_def replace_sub_question_def deref_sub_question_def Let_def)

lemma map_sub_question_objs_deref:
  assumes "distinct (sub_question_addrs ss)"
  shows "map (deref_sub_question (snd (map_sub_question_objs m ss h))) (fst (map_sub_question_objs m ss h)) =
         map (replace_sub_question m) (map (deref_sub_question h) ss)"
  using assms
proof (induction ss arbitrary: h)
  case Nil
  then show ?case by simp
next
  case (Cons s ss)
  let ?h1 = "assign_content_images m (ref_sq_content s) h"
  let ?s1 = "s\<lparr>ref_sq_options := replace_options m (ref_sq_options s)\<rparr>"
  let ?h2 = "snd (map_sub_question_objs m ss ?h1)"
  have d: "distinct (sub_question_addrs ss)"
    and sep: "set (ref_list (ref_sq_content s)) \<inter> set (sub_question_addrs ss) = {}"
    using Cons.prems by (simp_all add: sub_question_addrs_def)
  have step: "replace_sub_question_obj m s h = (?s1, ?h1)"
    by (simp add: replace_sub_question_obj_def Let_def)
  have unf: "map_sub_question_objs m (s # ss) h =
      (?s1 # fst (map_sub_question_objs m ss ?h1), ?h2)"
    by (rule map_sub_question_objs_Cons)
  have head: "deref_sub_question ?h2 ?s1 = replace_sub_question m (deref_sub_question h s)"
  proof -
    have "deref_sub_question ?h2 ?s1 = deref_sub_question ?h1 ?s1"
      using sep by (intro deref_sub_question_cong map_sub_question_objs_other) auto
    then show ?thesis
      using replace_sub_question_obj_deref [of m s h] by (simp add: step)
  qed
  have "map (deref_sub_question ?h1) ss = map (deref_sub_question h) ss"
  proof (rule map_cong [OF refl])
    fix t assume "t \<in> set ss"
    then have "set (ref_list (ref_sq_content t)) \<subseteq> set (sub_question_addrs ss)"
      by (auto simp: sub_question_addrs_def)
    with sep show "deref_sub_question ?h1 t = deref_sub_question h t"
      by (intro deref_sub_question_cong assign_content_images_other) auto
  qed
  with Cons.IH [OF d, of ?h1] head show ?case
    unfolding unf by simp
qed

lemma replaceImageUrls_obj_deref:
  assumes "distinct (content_addrs q)"
  shows "deref_question (snd (replaceImageUrls_obj q m h)) (fst (replaceImageUrls_obj q m h)) =
         replaceImageUrls (deref_question h q) m"
proof -
  let ?h1 = "assign_content_images m (ref_content q) h"
  let ?h2 = "assign_content_images m (ref_comprehension_passage q) ?h1"
  let ?ss = "case ref_sub_questions q of None \<Rightarrow> [] | Some ss \<Rightarrow> ss"
  let ?h3 = "snd (map_sub_question_objs m ?ss ?h2)"
  have sep1: "set (ref_list (ref_content q)) \<inter> set (ref_list (ref_comprehension_passage q)) = {}"
    and sep2: "set (ref_list (ref_content q)) \<inter> set (sub_question_addrs ?ss) = {}"
    and sep3: "set (ref_list (ref_comprehension_passage q)) \<inter> set (sub_question_addrs ?ss) = {}"
    and d: "distinct (sub_question_addrs ?ss)"
    using assms by (auto simp: content_addrs_def sub_question_addrs_def split: option.splits)
  have c: "map_option ?h3 (ref_content q) = replace_content_images m (map_option h (ref_content q))"
  proof -
    have "map_option ?h3 (ref_content q) = map_option ?h1 (ref_content q)"
    proof (cases "ref_content q")
      case None
      then show ?thesis by simp
    next
      case (Some a)
      then have "a \<notin> set (sub_question_addrs ?ss)" "a \<notin> set (ref_list (ref_comprehension_passage q))"
        using sep1 sep2 by (auto simp: ref_list_def)
      then show ?thesis
        using Some by (simp add: map_sub_question_objs_other assign_content_images_other)
    qed
    then show ?thesis by (simp add: assign_content_images_at)
  qed
  have p: "map_option ?h3 (ref_comprehension_passage q) =
      replace_content_images m (map_option h (ref_comprehension_passage q))"
  proof -
    have "map_option ?h3 (ref_comprehension_passage q) = map_option ?h2 (ref_comprehension_passage q)"
    proof (cases "ref_comprehension_passage q")
      case None
      then show ?thesis by simp
    next
      case (Some a)
      then have "a \<notin> set (sub_question_addrs ?ss)"
        using sep3 by (auto simp: ref_list_def)
      then show ?thesis
        using Some by (simp add: map_sub_question_objs_other)
    qed
    moreover have "map_option ?h1 (ref_comprehension_passage q) = map_option h (ref_comprehension_passage q)"
    proof (cases "ref_comprehension_passage q")
      case None
      then show ?thesis by simp
    next
      case (Some a)
      then have "a \<notin> set (ref_list (ref_content q))"
        using sep1 by (auto simp: ref_list_def)
      then show ?thesis
        using Some by (simp add: assign_content_images_other)
    qed
    ultimately show ?thesis
      using assign_content_images_at [of m "ref_comprehension_passage q" ?h1] by simp
  qed
  have s: "map (deref_sub_question ?h3) (fst (map_sub_question_objs m ?ss ?h2)) =
      map (replace_sub_question m) (map (deref_sub_question h) ?ss)"
  proof -
    have "map (deref_sub_question ?h2) ?ss = map (deref_sub_question h) ?ss"
    proof (rule map_cong [OF refl])
      fix t assume "t \<in> set ?ss"
      then have "set (ref_list (ref_sq_content t)) \<subseteq> set (sub_question_addrs ?ss)"
        by (auto simp: sub_question_addrs_def)
      with sep2 sep3 have out: "a \<notin> set (ref_list (ref_comprehension_passage q))"
        "a \<notin> set (ref_list (ref_content q))" if "a \<in> set (ref_list (ref_sq_content t))" for a
        using that by auto
      show "deref_sub_question ?h2 t = deref_sub_question h t"
        by (rule deref_sub_question_cong) (simp add: out assign_content_images_other)
    qed
    with map_sub_question_objs_deref [OF d, of m ?h2] show ?thesis by simp
  qed
  show ?thesis
  proof (cases "ref_sub_questions q")
    case None
    then show ?thesis
      using c p
      by (simp add: replaceImageUrls_obj_def replaceImageUrls_def deref_question_def Let_def)
  next
    case (Some ss)
    obtain us h3 where ms: "map_sub_question_objs m ss ?h2 = (us, h3)"
      by (cases "map_sub_question_objs m ss ?h2")
    show ?thesis
      using c p s Some
      by (simp add: ms replaceImageUrls_obj_def replaceImageUrls_def deref_question_def Let_def)
  qed
qed

lemma replaceImageUrls_obj_refs:
  "ref_content (fst (replaceImageUrls_obj q m h)) = ref_content q \<and>
   ref_comprehension_passage (fst (replaceImageUrls_obj q m h)) = ref_comprehension_passage q"
  by (simp add: replaceImageUrls_obj_def Let_def split: option.splits prod.splits)

text \<open>
  On a tree-shaped question object the rewriter on the object graph returns the question
  that the rewriter on values returns. The input object, read again after the call,
  still has its legacy field and its options, but its content block and its passage are
  those of the result.
\<close>

lemma replaceImageUrls_obj_input_after:
  assumes "distinct (content_addrs q)"
  shows "content (deref_question (snd (replaceImageUrls_obj q m h)) q) =
           content (replaceImageUrls (deref_question h q) m) \<and>
         comprehension_passage (deref_question (snd (replaceImageUrls_obj q m h)) q) =
           comprehension_passage (replaceImageUrls (deref_question h q) m) \<and>
         imageUrl (deref_question (snd (replaceImageUrls_obj q m h)) q) = imageUrl (deref_question h q) \<and>
         options (deref_question (snd (replaceImageUrls_obj q m h)) q) = options (deref_question h q)"
proof -
  let ?h' = "snd (replaceImageUrls_obj q m h)" and ?u = "fst (replaceImageUrls_obj q m h)"
  have "content (deref_question ?h' q) = content (deref_question ?h' ?u)"
    "comprehension_passage (deref_question ?h' q) = comprehension_passage (deref_question ?h' ?u)"
    using replaceImageUrls_obj_refs [of q m h] by (simp_all add: deref_question_def)
  then have "content (deref_question ?h' q) = content (replaceImageUrls (deref_question h q) m)"
    "comprehension_passage (deref_question ?h' q) =
       comprehension_passage (replaceImageUrls (deref_question h q) m)"
    by (simp_all add: replaceImageUrls_obj_deref [OF assms])
  moreover have "imageUrl (deref_question ?h' q) = imageUrl (deref_question h q)"
    "options (deref_question ?h' q) = options (deref_question h q)"
    by (simp_all add: deref_question_def)
  ultimately show ?thesis by simp
qed

section \<open>The rewriter and its input\<close>

text \<open>
  C4 asks that the rewriter leave its input as it was. On the object graph the content
  block of the input is written: after the call the caller's question shows the
  object-store URL in \<open>content.images\<close>, where before it showed \<open>http://x/a.png\<close>.
\<close>

theorem replaceImageUrls_writes_input_content:
  "content (deref_question heap0 qobj0) =
     Some \<lparr>ctext = ''text'', images = Some [''http://x/a.png'']\<rparr> \<and>
   content (deref_question (snd (replaceImageUrls_obj qobj0 map0 heap0)) qobj0) =
     Some \<lparr>ctext = ''text'',
           images = Some [''https://bucket.s3.r1.amazonaws.com/questions/h2.png'']\<rparr>"
  by (simp add: deref_question_def replaceImageUrls_obj_def assign_content_images_def heap0_def
      qobj0_def map0_def get_or_url_def map_get_def truthy_def replace_field_def replace_options_def)

section \<open>Looking a question up by id\<close>














text \<open>
  Above \<open>2 ^ 53\<close> the number read is not always the integer written: the digits of
  \<open>2 ^ 53 + 1\<close> give \<open>2 ^ 53\<close>.
\<close>

text \<open>
  Above \<open>2 ^ 53\<close> the number read is not always the integer written: the digits of
  \<open>2 ^ 53 + 1\<close> give \<open>2 ^ 53\<close>.
\<close>

lemma nearest_double_rounds:
  "nearest_double 9007199254740993 = Some 9007199254740992"
  "nearest_double 9007199254740995 = Some 9007199254740996"
  by (simp_all add: nearest_double_def bit_length.simps Let_def)

lemma parseInt_rounds:
  "parseInt ''9007199254740993'' = Num 9007199254740992"
  "parseInt ''9007199254740995'' = Num 9007199254740996"
  by (simp_all add: parseInt_def Let_def is_space_def is_digit_def digit_value_def
      digits_value_def signed_double_def nearest_double_rounds)







section \<open>The batch\<close>

lemma one_by_one_Cons:
  "one_by_one env w (q # qs) =
     (fst (one_by_one env (fst (uploadQuestionToDB env w q)) qs),
      snd (uploadQuestionToDB env w q) # snd (one_by_one env (fst (uploadQuestionToDB env w q)) qs))"
  by (simp split: prod.splits)

lemma length_one_by_one: "length (snd (one_by_one env w qs)) = length qs"
  by (induction qs arbitrary: w) (simp_all add: one_by_one_Cons del: one_by_one.simps(2))

lemma one_by_one_nth:
  "i < length qs \<Longrightarrow>
   snd (one_by_one env w qs) ! i =
     snd (uploadQuestionToDB env (fst (one_by_one env w (take i qs))) (qs ! i))"
proof (induction qs arbitrary: w i)
  case Nil
  then show ?case by simp
next
  case (Cons q qs)
  show ?case
  proof (cases i)
    case 0
    then show ?thesis by (simp add: one_by_one_Cons del: one_by_one.simps(2))
  next
    case (Suc j)
    then have "j < length qs" using Cons.prems by simp
    from Cons.IH [OF this] Suc show ?thesis
      by (simp add: one_by_one_Cons del: one_by_one.simps(2))
  qed
qed

text \<open>
  On question objects the loop is the contract: every question is run, in order, in the
  world left by the questions before it, whatever their results were; there is one
  result per question, and \<open>successful\<close> and \<open>failed\<close> count the results with \<open>success\<close>
  true and false.
\<close>

lemma batch_loop_objects:
  "batch_loop env (map Some qs) (w, b) =
     (fst (one_by_one env w qs),
      Inr (b\<lparr>results := results b @ snd (one_by_one env w qs),
             successful := successful b + length (filter success (snd (one_by_one env w qs))),
             failed := failed b + length (filter (\<lambda>r. \<not> success r) (snd (one_by_one env w qs)))\<rparr>))"
proof (induction qs arbitrary: w b)
  case Nil
  then show ?case by simp
next
  case (Cons q qs)
  obtain w1 r where step: "uploadQuestionToDB env w q = (w1, r)"
    by (cases "uploadQuestionToDB env w q")
  show ?case
    by (cases "success r")
      (simp_all add: uploadQuestionToDB_call_def step Cons.IH one_by_one_Cons del: one_by_one.simps)
qed

lemma uploadMultipleQuestions_objects:
  "uploadMultipleQuestions env w (map Some qs) =
     (fst (one_by_one env w qs),
      Inr \<lparr>successful = length (filter success (snd (one_by_one env w qs))),
           failed = length (filter (\<lambda>r. \<not> success r) (snd (one_by_one env w qs))),
           results = snd (one_by_one env w qs)\<rparr>)"
  by (simp add: uploadMultipleQuestions_def batch_loop_objects)

text \<open>
  A \<open>null\<close> among the elements ends the batch: the questions before it have been run,
  the call throws, and neither their results nor the questions after it are heard of.
\<close>

lemma batch_loop_null:
  "batch_loop env (map Some qs @ None # rest) (w, b) =
     (fst (one_by_one env w qs), Inl (Error ''Cannot read properties of null (reading 'id')''))"
proof (induction qs arbitrary: w b)
  case Nil
  then show ?case by (simp add: uploadQuestionToDB_call_def)
next
  case (Cons q qs)
  obtain w1 r where step: "uploadQuestionToDB env w q = (w1, r)"
    by (cases "uploadQuestionToDB env w q")
  show ?case
    by (cases "success r")
      (simp_all add: uploadQuestionToDB_call_def step Cons.IH one_by_one_Cons del: one_by_one.simps)
qed

lemma uploadMultipleQuestions_null:
  "uploadMultipleQuestions env w (map Some qs @ None # rest) =
     (fst (one_by_one env w qs), Inl (Error ''Cannot read properties of null (reading 'id')''))"
  by (simp add: uploadMultipleQuestions_def batch_loop_null)

text \<open>
  C7. A question that cannot be processed aborts the batch when it is \<open>null\<close>. For the
  request body \<open>{"questions": [q1, null, q2]}\<close>, which the batch route accepts, the first
  question is uploaded and stored, the call for the second element throws before the
  \<open>try\<close> of \<open>uploadQuestionToDB\<close> is entered, and \<open>uploadMultipleQuestions\<close> throws with
  it: no \<open>{successful, failed, results}\<close> is returned, the result of the first question
  is lost, and the third question, which would have been stored, is never processed.
  The same batch without the \<open>null\<close> returns two results.
\<close>

theorem uploadMultipleQuestions_aborts_on_null:
  "snd (uploadMultipleQuestions env_ok w0 [Some q_legacy, None, Some q_plain]) =
     Inl (Error ''Cannot read properties of null (reading 'id')'') \<and>
   fst (uploadMultipleQuestions env_ok w0 [Some q_legacy, None, Some q_plain]) =
     fst (uploadQuestionToDB env_ok w0 q_legacy) \<and>
   success (snd (uploadQuestionToDB env_ok w0 q_legacy)) = True \<and>
   map (\<lambda>d. id_field (doc_fields d))
     (docs (fst (uploadMultipleQuestions env_ok w0 [Some q_legacy, None, Some q_plain]))) =
     [IdStr ''q1''] \<and>
   success (snd (uploadQuestionToDB env_ok (fst (uploadQuestionToDB env_ok w0 q_legacy)) q_plain)) = True \<and>
   map_sum id (\<lambda>b. (successful b, failed b, map success (results b)))
     (snd (uploadMultipleQuestions env_ok w0 [Some q_legacy, Some q_plain])) =
     Inr (2, 0, [True, True])"
  by code_simp

section \<open>The migration loop\<close>

lemma map_set_fresh: "k \<notin> fst ` set m \<Longrightarrow> map_set k v m = m @ [(k, v)]"
  by (induction m) auto

lemma extractS3Key_parsed:
  "parsed_url env (Inr s) \<Longrightarrow> extractS3Key env s = Inr (key_of env s)"
  by (auto simp: parsed_url_def extractS3Key_def key_of_def split: option.splits)

lemma extractS3Key_readable:
  "readable_url env (Inr s) \<Longrightarrow> extractS3Key env s = Inr (key_of env s) \<and> key_of env s \<noteq> []"
  by (auto simp: readable_url_def extractS3Key_def key_of_def split: option.splits)

lemma readable_parsed: "readable_url env r \<Longrightarrow> parsed_url env r"
  by (auto simp: readable_url_def parsed_url_def split: sum.splits option.splits)

lemma list_all_readable_parsed:
  "list_all (readable_url env) rs \<Longrightarrow> list_all (parsed_url env) rs"
  using readable_parsed by (auto simp: list_all_iff)

lemma migrate_one_failed:
  assumes "snd (uploadImageToS3 env w (Some u)) = Inl e"
  shows "migrate_one env u (w, st) =
     (fst (uploadImageToS3 env w (Some u)),
      st\<lparr>failedList := failedList st @ [\<lparr>url = u, error = error_message e\<rparr>]\<rparr>)"
  using assms by (cases "uploadImageToS3 env w (Some u)") (simp add: migrate_one_def)

lemma migrate_one_uploaded:
  assumes "snd (uploadImageToS3 env w (Some u)) = Inr s" and "parsed_url env (Inr s)"
    and "u \<notin> fst ` set (s3UrlMap st)"
  shows "migrate_one env u (w, st) =
     (fst (uploadImageToS3 env w (Some u)),
      st\<lparr>s3UrlMap := s3UrlMap st @ [(u, s)],
         uploadedS3Keys := uploadedS3Keys st @ [key_of env s]\<rparr>)"
  using assms extractS3Key_parsed [OF assms(2)]
  by (cases "uploadImageToS3 env w (Some u)") (simp add: migrate_one_def map_set_fresh)

lemma migrated_Cons:
  "migrated (u # us) (r # rs) = (case r of Inl e \<Rightarrow> [] | Inr s \<Rightarrow> [(u, s)]) @ migrated us rs"
  by (simp add: migrated_def)

lemma not_migrated_Cons:
  "not_migrated (u # us) (r # rs) =
     (case r of Inl e \<Rightarrow> [\<lparr>url = u, error = error_message e\<rparr>] | Inr s \<Rightarrow> []) @ not_migrated us rs"
  by (simp add: not_migrated_def)

lemma migrated_Nil: "migrated [] rs = []" "not_migrated [] rs = []"
  by (simp_all add: migrated_def not_migrated_def)

lemma migrate_outcomes:
  assumes "list_all (parsed_url env) (upload_outcomes env w urls)"
    and "distinct urls" and "set urls \<inter> fst ` set (s3UrlMap st) = {}"
  shows "migrate env urls (w, st) =
     (upload_worlds env w urls,
      st\<lparr>s3UrlMap := s3UrlMap st @ migrated urls (upload_outcomes env w urls),
         uploadedS3Keys := uploadedS3Keys st @
            map (\<lambda>(u, s). key_of env s) (migrated urls (upload_outcomes env w urls)),
         failedList := failedList st @ not_migrated urls (upload_outcomes env w urls)\<rparr>)"
  using assms
proof (induction urls arbitrary: w st)
  case Nil
  then show ?case by (simp add: migrate_def migrated_Nil)
next
  case (Cons u us)
  let ?w1 = "fst (uploadImageToS3 env w (Some u))"
  have rest: "list_all (parsed_url env) (upload_outcomes env ?w1 us)" and du: "distinct us"
    and fresh: "u \<notin> fst ` set (s3UrlMap st)" and nu: "u \<notin> set us"
    using Cons.prems by auto
  show ?case
  proof (cases "snd (uploadImageToS3 env w (Some u))")
    case (Inl e)
    let ?st1 = "st\<lparr>failedList := failedList st @ [\<lparr>url = u, error = error_message e\<rparr>]\<rparr>"
    have "set us \<inter> fst ` set (s3UrlMap ?st1) = {}"
      using Cons.prems(3) by auto
    from Cons.IH [OF rest du this] migrate_one_failed [OF Inl, of st] Inl
    show ?thesis
      by (simp add: migrate_def migrated_Cons not_migrated_Cons)
  next
    case (Inr s)
    then have rd: "parsed_url env (Inr s)"
      using Cons.prems(1) by simp
    let ?st1 = "st\<lparr>s3UrlMap := s3UrlMap st @ [(u, s)],
         uploadedS3Keys := uploadedS3Keys st @ [key_of env s]\<rparr>"
    have "set us \<inter> fst ` set (s3UrlMap ?st1) = {}"
      using Cons.prems(3) nu by auto
    from Cons.IH [OF rest du this] migrate_one_uploaded [OF Inr rd fresh] Inr
    show ?thesis
      by (simp add: migrate_def migrated_Cons not_migrated_Cons)
  qed
qed

lemma length_upload_outcomes: "length (upload_outcomes env w urls) = length urls"
  by (induction urls arbitrary: w) simp_all

lemma length_migrated:
  "length urls = length outs \<Longrightarrow>
   length (migrated urls outs) = length (filter (\<lambda>r. \<not> isl r) outs) \<and>
   length (not_migrated urls outs) = length (filter isl outs)"
proof (induction urls outs rule: list_induct2)
  case Nil
  then show ?case by (simp add: migrated_Nil)
next
  case (Cons u us r rs)
  then show ?case
    by (cases r) (simp_all add: migrated_Cons not_migrated_Cons)
qed

section \<open>The gateways, call by call\<close>

lemma uploadImageToS3_world:
  "docs (fst (uploadImageToS3 env w u)) = docs w"
  by (auto simp: uploadImageToS3_def downloadImage_def s3_send_def attempt_def Let_def
      split: fetch_result.splits sum.splits option.splits)

lemma uploadImageToS3_uploaded:
  assumes "snd (uploadImageToS3 env w u) = Inr s"
  shows "getBucketName env = Inr (js_str (s3BucketName env)) \<and> s \<noteq> []"
  using assms
  by (auto simp: uploadImageToS3_def downloadImage_def s3_send_def Let_def getBucketName_def
      js_str_def
      split: fetch_result.splits sum.splits option.splits if_splits)

lemma getS3Client_configured: "getBucketName env = Inr b \<Longrightarrow> getS3Client env = Inr ()"
  by (auto simp: getBucketName_def getS3Client_def truthy_opt_def split: option.splits if_splits)

lemma deleteImageFromS3_attempted:
  assumes "getBucketName env = Inr b" and "s3Key \<noteq> []"
  shows "fst (deleteImageFromS3 env w s3Key) = attempt (DeleteObject b s3Key) w"
  using assms getS3Client_configured [OF assms(1)]
  by (simp add: deleteImageFromS3_def truthy_def s3_send_def)

lemma deleteImageFromS3_empty_key: "deleteImageFromS3 env w [] = (w, None)"
  by (simp add: deleteImageFromS3_def truthy_def)

lemma rollback_s3_attempts:
  assumes "getBucketName env = Inr b"
  shows "rollback_s3 env w keys =
           w\<lparr>calls := calls w @ map (DeleteObject b) (filter (\<lambda>k. k \<noteq> []) keys)\<rparr>"
proof (induction keys arbitrary: w)
  case Nil
  then show ?case by (simp add: rollback_s3_def)
next
  case (Cons k ks)
  show ?case
  proof (cases "k = []")
    case True
    then show ?thesis
      using Cons.IH [of w] by (simp add: rollback_s3_def deleteImageFromS3_empty_key)
  next
    case False
    have "rollback_s3 env (attempt (DeleteObject b k) w) ks =
        (attempt (DeleteObject b k) w)\<lparr>calls := calls (attempt (DeleteObject b k) w) @
           map (DeleteObject b) (filter (\<lambda>k. k \<noteq> []) ks)\<rparr>"
      by (rule Cons.IH)
    then show ?thesis
      using False deleteImageFromS3_attempted [OF assms False, of w]
      by (simp add: rollback_s3_def attempt_def)
  qed
qed

lemma rollback_s3_Nil: "rollback_s3 env w [] = w"
  by (simp add: rollback_s3_def)

lemma rollback_mongo_calls:
  "calls (rollback_mongo env w mongo_id) =
     calls w @ (if truthy_opt mongo_id \<and> object_id_ok env (js_str mongo_id)
                then [DeleteOne (js_str mongo_id)] else [])"
  by (auto simp: rollback_mongo_def deleteQuestionFromMongoDB_def mongo_call_def attempt_def
      split: option.splits)

lemma catch_block_result:
  "snd (catch_block env w e mongo_id keys) =
     failure_result (''Upload failed: '' @ error_text e @ ''. All changes have been rolled back.'')"
  by (simp add: catch_block_def Let_def)

lemma catch_block_calls:
  assumes "keys \<noteq> [] \<longrightarrow> getBucketName env = Inr b"
  shows "calls (fst (catch_block env w e mongo_id keys)) =
     calls w @
     (if truthy_opt mongo_id \<and> object_id_ok env (js_str mongo_id)
      then [DeleteOne (js_str mongo_id)] else []) @
     map (DeleteObject b) (filter (\<lambda>k. k \<noteq> []) keys)"
proof (cases "keys = []")
  case True
  then show ?thesis
    by (simp add: catch_block_def Let_def rollback_s3_Nil rollback_mongo_calls)
next
  case False
  then have "getBucketName env = Inr b" using assms by simp
  from rollback_s3_attempts [OF this] show ?thesis
    by (simp add: catch_block_def Let_def rollback_mongo_calls)
qed

lemma catch_block_docs_None:
  assumes "keys \<noteq> [] \<longrightarrow> getBucketName env = Inr b"
  shows "docs (fst (catch_block env w e None keys)) = docs w"
proof (cases "keys = []")
  case True
  then show ?thesis
    by (simp add: catch_block_def Let_def rollback_s3_Nil rollback_mongo_def truthy_opt_def)
next
  case False
  then have "getBucketName env = Inr b" using assms by simp
  from rollback_s3_attempts [OF this] show ?thesis
    by (simp add: catch_block_def Let_def rollback_mongo_def truthy_opt_def)
qed

lemma saveQuestionToMongoDB_fault:
  "snd (saveQuestionToMongoDB env w q s) = Inl e \<Longrightarrow>
   docs (fst (saveQuestionToMongoDB env w q s)) = docs w"
  by (auto simp: saveQuestionToMongoDB_def mongo_call_def attempt_def Let_def split: option.splits)

lemma upload_worlds_docs: "docs (upload_worlds env w urls) = docs w"
  by (induction urls arbitrary: w) (simp_all add: uploadImageToS3_world)

lemma uploadQuestionToDB_stages:
  assumes "mongo_fault env (tick w) (CountDocuments (id_field q)) = None"
    and "\<forall>d\<in>set (docs w). id_field (doc_fields d) \<noteq> id_field q"
  shows "uploadQuestionToDB env w q =
     (case insert_run env w q of
        (w3, Inl e) \<Rightarrow> catch_block env w3 e None (uploadedS3Keys (snd (migration_run env w q)))
      | (w3, Inr mongo_id) \<Rightarrow>
          (w3, \<lparr>success = True, message = success_message (failedList (snd (migration_run env w q))),
                s3Urls = Some (map_values (s3UrlMap (snd (migration_run env w q)))),
                mongoId = Some mongo_id,
                failedImages =
                  (if length (failedList (snd (migration_run env w q))) > 0
                   then Some (failedList (snd (migration_run env w q))) else None)\<rparr>))"
proof -
  obtain w2 st where m: "migrate env (collectImageUrls q) (after_check w q, no_migration) = (w2, st)"
    by (cases "migrate env (collectImageUrls q) (after_check w q, no_migration)")
  obtain w3 r where sv: "saveQuestionToMongoDB env w2 (replaceImageUrls q (s3UrlMap st))
            (case imageUrl q of None \<Rightarrow> None | Some u \<Rightarrow> map_get (s3UrlMap st) u) = (w3, r)"
    by (cases "saveQuestionToMongoDB env w2 (replaceImageUrls q (s3UrlMap st))
            (case imageUrl q of None \<Rightarrow> None | Some u \<Rightarrow> map_get (s3UrlMap st) u)")
  have ex: "questionExists env w (id_field q) = (after_check w q, Inr False)"
    using questionExists_not_found [OF assms] by (simp add: after_check_def)
  show ?thesis
    by (cases r) (simp_all add: uploadQuestionToDB_def ex m sv insert_run_def migration_run_def Let_def)
qed

lemma migration_run_outcomes:
  assumes "list_all (parsed_url env) (run_outcomes env w q)"
  shows "migration_run env w q =
     (upload_worlds env (after_check w q) (collectImageUrls q),
      \<lparr>s3UrlMap = migrated (collectImageUrls q) (run_outcomes env w q),
       uploadedS3Keys = map (\<lambda>(u, s). key_of env s) (migrated (collectImageUrls q) (run_outcomes env w q)),
       failedList = not_migrated (collectImageUrls q) (run_outcomes env w q)\<rparr>)"
  using migrate_outcomes [of env "after_check w q" "collectImageUrls q" no_migration] assms
    distinct_collectImageUrls [of q]
  by (simp add: migration_run_def run_outcomes_def no_migration_def)

lemma migrated_in_outcomes:
  "(u, s) \<in> set (migrated urls outs) \<Longrightarrow> (u, Inr s) \<in> set (zip urls outs)"
  by (auto simp: migrated_def split: sum.splits)

lemma upload_outcomes_uploaded:
  "Inr s \<in> set (upload_outcomes env w urls) \<Longrightarrow>
   getBucketName env = Inr (js_str (s3BucketName env)) \<and> s \<noteq> []"
proof (induction urls arbitrary: w)
  case Nil
  then show ?case by simp
next
  case (Cons u us)
  then show ?case
    using uploadImageToS3_uploaded [of env w "Some u" s] by auto
qed

lemma migrated_keys:
  assumes "list_all (readable_url env) outs"
  shows "\<forall>k\<in>set (map (\<lambda>(u, s). key_of env s) (migrated urls outs)). k \<noteq> []"
proof -
  have "key_of env s \<noteq> []" if "(u, s) \<in> set (migrated urls outs)" for u s
  proof -
    from migrated_in_outcomes [OF that] have "Inr s \<in> set outs"
      by (meson in_set_zipE)
    with assms have "readable_url env (Inr s)"
      by (simp add: list_all_iff)
    then show ?thesis using extractS3Key_readable by blast
  qed
  then show ?thesis by auto
qed

lemma migrated_extract:
  assumes "list_all (parsed_url env) outs"
  shows "map (extractS3Key env) (map snd (migrated urls outs)) =
         map Inr (map (\<lambda>(u, s). key_of env s) (migrated urls outs))"
proof -
  have "extractS3Key env s = Inr (key_of env s)" if "(u, s) \<in> set (migrated urls outs)" for u s
  proof -
    from migrated_in_outcomes [OF that] have "Inr s \<in> set outs"
      by (meson in_set_zipE)
    with assms have "parsed_url env (Inr s)"
      by (simp add: list_all_iff)
    then show ?thesis using extractS3Key_parsed by blast
  qed
  then show ?thesis by auto
qed

section \<open>Rollback\<close>

lemma rollback_keys_facts:
  assumes "list_all (parsed_url env) (run_outcomes env w q)"
  shows "uploadedS3Keys (snd (migration_run env w q)) \<noteq> [] \<longrightarrow>
           getBucketName env = Inr (js_str (s3BucketName env))"
    and "length (uploadedS3Keys (snd (migration_run env w q))) =
           length (filter (\<lambda>r. \<not> isl r) (run_outcomes env w q))"
    and "list_all (readable_url env) (run_outcomes env w q) \<longrightarrow>
           (\<forall>k\<in>set (uploadedS3Keys (snd (migration_run env w q))). k \<noteq> [])"
proof -
  let ?urls = "collectImageUrls q" and ?outs = "run_outcomes env w q"
  have keys: "uploadedS3Keys (snd (migration_run env w q)) =
      map (\<lambda>(u, s). key_of env s) (migrated ?urls ?outs)"
    by (simp add: migration_run_outcomes [OF assms])
  show "uploadedS3Keys (snd (migration_run env w q)) \<noteq> [] \<longrightarrow>
           getBucketName env = Inr (js_str (s3BucketName env))"
  proof
    assume "uploadedS3Keys (snd (migration_run env w q)) \<noteq> []"
    then obtain u s where "(u, s) \<in> set (migrated ?urls ?outs)"
      unfolding keys by (cases "migrated ?urls ?outs") auto
    from migrated_in_outcomes [OF this] have "Inr s \<in> set ?outs"
      by (meson in_set_zipE)
    then show "getBucketName env = Inr (js_str (s3BucketName env))"
      unfolding run_outcomes_def using upload_outcomes_uploaded by blast
  qed
  have "length ?urls = length ?outs"
    by (simp add: run_outcomes_def length_upload_outcomes)
  from length_migrated [OF this]
  show "length (uploadedS3Keys (snd (migration_run env w q))) =
           length (filter (\<lambda>r. \<not> isl r) (run_outcomes env w q))"
    by (simp add: keys)
  show "list_all (readable_url env) (run_outcomes env w q) \<longrightarrow>
           (\<forall>k\<in>set (uploadedS3Keys (snd (migration_run env w q))). k \<noteq> [])"
    unfolding keys using migrated_keys by blast
qed

lemma insert_run_fault_docs:
  assumes "list_all (parsed_url env) (run_outcomes env w q)"
    and "snd (insert_run env w q) = Inl e"
  shows "docs (fst (insert_run env w q)) = docs w"
  using assms(2) saveQuestionToMongoDB_fault
  by (simp add: insert_run_def migration_run_outcomes [OF assms(1)] upload_worlds_docs
      after_check_def attempt_def)

text \<open>
  What the \<open>catch\<close> block does after a failed insert. The question is new, the URLs
  returned by the uploads can be parsed, and the insert throws \<open>e\<close> after \<open>K\<close> uploads
  have succeeded. Then \<open>K\<close> keys have been recorded, each read back from the returned URL,
  and the calls attempted after the insert are one deletion from the object store per
  recorded key that is not the empty string, in order, whatever the answers of the object
  store to the earlier deletions; no deletion from the document store is attempted (no
  store id was obtained); the collection is as it was; and the function returns the
  failure result with the message \<open>Upload failed: <cause>. All changes have been rolled
  back.\<close> Where every returned URL has a path longer than its leading slash, no recorded
  key is empty and the deletions are \<open>K\<close>.
\<close>

lemma rollback_attempts_after_insert_fault:
  assumes "mongo_fault env (tick w) (CountDocuments (id_field q)) = None"
    and "\<forall>d\<in>set (docs w). id_field (doc_fields d) \<noteq> id_field q"
    and "list_all (parsed_url env) (run_outcomes env w q)"
    and "snd (insert_run env w q) = Inl e"
  shows "snd (uploadQuestionToDB env w q) =
           failure_result (''Upload failed: '' @ error_text e @ ''. All changes have been rolled back.'')"
    and "length (uploadedS3Keys (snd (migration_run env w q))) =
           length (filter (\<lambda>r. \<not> isl r) (run_outcomes env w q))"
    and "calls (fst (uploadQuestionToDB env w q)) =
           calls (fst (insert_run env w q)) @
           map (DeleteObject (js_str (s3BucketName env)))
             (filter (\<lambda>k. k \<noteq> []) (uploadedS3Keys (snd (migration_run env w q))))"
    and "docs (fst (uploadQuestionToDB env w q)) = docs w"
    and "list_all (readable_url env) (run_outcomes env w q) \<Longrightarrow>
         calls (fst (uploadQuestionToDB env w q)) =
           calls (fst (insert_run env w q)) @
           map (DeleteObject (js_str (s3BucketName env))) (uploadedS3Keys (snd (migration_run env w q)))"
proof -
  let ?keys = "uploadedS3Keys (snd (migration_run env w q))"
  let ?b = "js_str (s3BucketName env)"
  note kf = rollback_keys_facts [OF assms(3)]
  have run: "uploadQuestionToDB env w q = catch_block env (fst (insert_run env w q)) e None ?keys"
    using assms(4) uploadQuestionToDB_stages [OF assms(1,2)]
    by (cases "insert_run env w q") simp
  show "snd (uploadQuestionToDB env w q) =
           failure_result (''Upload failed: '' @ error_text e @ ''. All changes have been rolled back.'')"
    by (simp add: run catch_block_result)
  show "length ?keys = length (filter (\<lambda>r. \<not> isl r) (run_outcomes env w q))"
    by (rule kf(2))
  show c: "calls (fst (uploadQuestionToDB env w q)) =
           calls (fst (insert_run env w q)) @ map (DeleteObject ?b) (filter (\<lambda>k. k \<noteq> []) ?keys)"
    using catch_block_calls [OF kf(1), of "fst (insert_run env w q)" e None]
    by (simp add: run truthy_opt_def)
  show "docs (fst (uploadQuestionToDB env w q)) = docs w"
    using catch_block_docs_None [OF kf(1), of "fst (insert_run env w q)" e]
      insert_run_fault_docs [OF assms(3,4)]
    by (simp add: run)
  show "calls (fst (uploadQuestionToDB env w q)) =
           calls (fst (insert_run env w q)) @ map (DeleteObject ?b) ?keys"
    if "list_all (readable_url env) (run_outcomes env w q)"
  proof -
    from that kf(3) have "\<forall>k\<in>set ?keys. k \<noteq> []" by simp
    then have "filter (\<lambda>k. k \<noteq> []) ?keys = ?keys" by (simp add: filter_id_conv)
    with c show ?thesis by simp
  qed
qed

text \<open>
  The run on two images whose keys are read back in full: both objects are deleted after
  the failed insert, the second although the deletion of the first is refused.
\<close>

lemma rollback_of_two_images:
  "uploadedS3Keys (snd (migration_run env_insert_fails w0 q_two)) =
     [''questions/h2.png'', ''questions/h4.png'']"
  "drop 6 (calls (fst (uploadQuestionToDB env_insert_fails w0 q_two))) =
     [DeleteObject ''bucket'' ''questions/h2.png'', DeleteObject ''bucket'' ''questions/h4.png'']"
  "message (snd (uploadQuestionToDB env_insert_fails w0 q_two)) =
     ''Upload failed: connection lost. All changes have been rolled back.''"
  "docs (fst (uploadQuestionToDB env_insert_fails w0 q_two)) = []"
  by code_simp+

text \<open>
  C1. The rollback does not delete every image that was uploaded. The key of an uploaded
  object is not kept from the upload: it is read back from the returned URL, as the path
  of that URL without its leading slash, and the URL parser resolves dot segments in the
  path. The extension that \<open>generateImageHash\<close> copies from the source URL is everything
  after its last full stop, slashes included. For the image \<open>http://x/a.x/%2e%2e/%2e%2e\<close>
  the object is stored under the key \<open>questions/h2.x/%2e%2e/%2e%2e\<close>, the path of the
  returned URL is \<open>/\<close>, and the key recorded for the rollback is the empty string. When
  the insert then fails, one upload has succeeded, and \<open>deleteImageFromS3\<close> returns at
  once for the empty key: the four calls of the run are the lookup, the fetch, the upload
  and the insert, no deletion is sent to the object store, and the object stays in the
  bucket, while the result says that all changes have been rolled back.
\<close>

theorem rollback_misses_object_with_dot_segments:
  "mongo_fault env_dot_segments (tick w0) (CountDocuments (id_field q_dot_segments)) = None \<and>
   collectImageUrls q_dot_segments = [''http://x/a.x/%2e%2e/%2e%2e''] \<and>
   run_outcomes env_dot_segments w0 q_dot_segments =
     [Inr ''https://bucket.s3.r1.amazonaws.com/questions/h2.x/%2e%2e/%2e%2e''] \<and>
   list_all (parsed_url env_dot_segments) (run_outcomes env_dot_segments w0 q_dot_segments) \<and>
   url_pathname env_dot_segments ''https://bucket.s3.r1.amazonaws.com/questions/h2.x/%2e%2e/%2e%2e'' =
     Some ''/'' \<and>
   uploadedS3Keys (snd (migration_run env_dot_segments w0 q_dot_segments)) = [[]] \<and>
   snd (insert_run env_dot_segments w0 q_dot_segments) = Inl (Error ''connection lost'') \<and>
   length (filter (\<lambda>r. \<not> isl r) (run_outcomes env_dot_segments w0 q_dot_segments)) = 1 \<and>
   calls (fst (uploadQuestionToDB env_dot_segments w0 q_dot_segments)) =
     calls (fst (insert_run env_dot_segments w0 q_dot_segments)) \<and>
   take 3 (calls (fst (uploadQuestionToDB env_dot_segments w0 q_dot_segments))) =
     [CountDocuments (IdStr ''q4''), Fetch ''http://x/a.x/%2e%2e/%2e%2e'',
      PutObject ''bucket'' ''questions/h2.x/%2e%2e/%2e%2e'' ''bytes''] \<and>
   length (calls (fst (uploadQuestionToDB env_dot_segments w0 q_dot_segments))) = 4 \<and>
   filter (\<lambda>c. case c of DeleteObject b k \<Rightarrow> True | _ \<Rightarrow> False)
     (calls (fst (uploadQuestionToDB env_dot_segments w0 q_dot_segments))) = [] \<and>
   snd (uploadQuestionToDB env_dot_segments w0 q_dot_segments) =
     failure_result ''Upload failed: connection lost. All changes have been rolled back.''"
  by code_simp

section \<open>The bookkeeping of the migration\<close>

lemma migration_run_lengths:
  assumes "list_all (parsed_url env) (run_outcomes env w q)"
  shows "length (s3UrlMap (snd (migration_run env w q))) =
           length (filter (\<lambda>r. \<not> isl r) (run_outcomes env w q))"
    and "length (failedList (snd (migration_run env w q))) =
           length (filter isl (run_outcomes env w q))"
    and "length (s3UrlMap (snd (migration_run env w q))) +
           length (failedList (snd (migration_run env w q))) = length (collectImageUrls q)"
proof -
  have len: "length (collectImageUrls q) = length (run_outcomes env w q)"
    by (simp add: run_outcomes_def length_upload_outcomes)
  note lm = length_migrated [OF len]
  show "length (s3UrlMap (snd (migration_run env w q))) =
           length (filter (\<lambda>r. \<not> isl r) (run_outcomes env w q))"
    and "length (failedList (snd (migration_run env w q))) =
           length (filter isl (run_outcomes env w q))"
    using lm by (simp_all add: migration_run_outcomes [OF assms])
  have "length (filter (\<lambda>r. \<not> isl r) (run_outcomes env w q)) +
      length (filter isl (run_outcomes env w q)) = length (run_outcomes env w q)"
    using sum_length_filter_compl [of isl "run_outcomes env w q"] by simp
  then show "length (s3UrlMap (snd (migration_run env w q))) +
           length (failedList (snd (migration_run env w q))) = length (collectImageUrls q)"
    using lm by (simp add: migration_run_outcomes [OF assms] len)
qed

lemma uploadQuestionToDB_inserted:
  assumes "mongo_fault env (tick w) (CountDocuments (id_field q)) = None"
    and "\<forall>d\<in>set (docs w). id_field (doc_fields d) \<noteq> id_field q"
    and "snd (insert_run env w q) = Inr mongo_id"
  shows "uploadQuestionToDB env w q =
     (fst (insert_run env w q),
      \<lparr>success = True, message = success_message (failedList (snd (migration_run env w q))),
       s3Urls = Some (map_values (s3UrlMap (snd (migration_run env w q)))),
       mongoId = Some mongo_id,
       failedImages =
         (if length (failedList (snd (migration_run env w q))) > 0
          then Some (failedList (snd (migration_run env w q))) else None)\<rparr>)"
  using assms(3) uploadQuestionToDB_stages [OF assms(1,2)]
  by (cases "insert_run env w q") simp

text \<open>
  C9. Assume that the platform's parser accepts every URL returned by the uploads of
  this run. One turn of the loop whose upload succeeds appends one entry to the map and one
  key, derived from the returned URL, to the key list; a turn whose upload fails appends
  to neither. After the loop the map holds one entry per successful upload, in order,
  the failure list one entry per failed upload, and the key list the keys of the map's
  values. In every success result \<open>s3Urls\<close> is the list of the map's values, and the
  lengths of \<open>s3Urls\<close> and \<open>failedImages\<close> add up to the number of references the
  extractor produced.
\<close>

theorem migration_bookkeeping_in_sync:
  assumes "list_all (parsed_url env) (run_outcomes env w q)"
  shows "(\<forall>u w' st e. snd (uploadImageToS3 env w' (Some u)) = Inl e \<longrightarrow>
            s3UrlMap (snd (migrate_one env u (w', st))) = s3UrlMap st \<and>
            uploadedS3Keys (snd (migrate_one env u (w', st))) = uploadedS3Keys st \<and>
            length (failedList (snd (migrate_one env u (w', st)))) = length (failedList st) + 1) \<and>
         (\<forall>u w' st s. snd (uploadImageToS3 env w' (Some u)) = Inr s \<and> parsed_url env (Inr s) \<and>
              u \<notin> fst ` set (s3UrlMap st) \<longrightarrow>
            s3UrlMap (snd (migrate_one env u (w', st))) = s3UrlMap st @ [(u, s)] \<and>
            map Inr (uploadedS3Keys (snd (migrate_one env u (w', st)))) =
              map Inr (uploadedS3Keys st) @ [extractS3Key env s] \<and>
            failedList (snd (migrate_one env u (w', st))) = failedList st) \<and>
         s3UrlMap (snd (migration_run env w q)) =
           migrated (collectImageUrls q) (run_outcomes env w q) \<and>
         failedList (snd (migration_run env w q)) =
           not_migrated (collectImageUrls q) (run_outcomes env w q) \<and>
         map (extractS3Key env) (map_values (s3UrlMap (snd (migration_run env w q)))) =
           map Inr (uploadedS3Keys (snd (migration_run env w q))) \<and>
         length (s3UrlMap (snd (migration_run env w q))) =
           length (filter (\<lambda>r. \<not> isl r) (run_outcomes env w q)) \<and>
         length (uploadedS3Keys (snd (migration_run env w q))) =
           length (s3UrlMap (snd (migration_run env w q))) \<and>
         length (failedList (snd (migration_run env w q))) =
           length (filter isl (run_outcomes env w q)) \<and>
         (mongo_fault env (tick w) (CountDocuments (id_field q)) = None \<and>
          (\<forall>d\<in>set (docs w). id_field (doc_fields d) \<noteq> id_field q) \<and>
          \<not> isl (snd (insert_run env w q)) \<longrightarrow>
            success (snd (uploadQuestionToDB env w q)) \<and>
            s3Urls (snd (uploadQuestionToDB env w q)) =
              Some (map_values (s3UrlMap (snd (migration_run env w q)))) \<and>
            length (case s3Urls (snd (uploadQuestionToDB env w q)) of None \<Rightarrow> [] | Some l \<Rightarrow> l) +
            length (case failedImages (snd (uploadQuestionToDB env w q)) of None \<Rightarrow> [] | Some l \<Rightarrow> l) =
              length (collectImageUrls q))"
proof -
  let ?st = "snd (migration_run env w q)"
  let ?urls = "collectImageUrls q" and ?outs = "run_outcomes env w q"
  note mr = migration_run_outcomes [OF assms]
  note ml = migration_run_lengths [OF assms]
  have step_failed: "\<forall>u w' st e. snd (uploadImageToS3 env w' (Some u)) = Inl e \<longrightarrow>
            s3UrlMap (snd (migrate_one env u (w', st))) = s3UrlMap st \<and>
            uploadedS3Keys (snd (migrate_one env u (w', st))) = uploadedS3Keys st \<and>
            length (failedList (snd (migrate_one env u (w', st)))) = length (failedList st) + 1"
    by (simp add: migrate_one_failed)
  have step_uploaded: "\<forall>u w' st s. snd (uploadImageToS3 env w' (Some u)) = Inr s \<and>
              parsed_url env (Inr s) \<and> u \<notin> fst ` set (s3UrlMap st) \<longrightarrow>
            s3UrlMap (snd (migrate_one env u (w', st))) = s3UrlMap st @ [(u, s)] \<and>
            map Inr (uploadedS3Keys (snd (migrate_one env u (w', st)))) =
              map Inr (uploadedS3Keys st) @ [extractS3Key env s] \<and>
            failedList (snd (migrate_one env u (w', st))) = failedList st"
    using extractS3Key_parsed by (simp add: migrate_one_uploaded)
  have m: "s3UrlMap ?st = migrated ?urls ?outs" and f: "failedList ?st = not_migrated ?urls ?outs"
    by (simp_all add: mr)
  have k: "map (extractS3Key env) (map_values (s3UrlMap ?st)) = map Inr (uploadedS3Keys ?st)"
    using migrated_extract [OF assms, of ?urls] by (simp add: mr map_values_def)
  have lk: "length (uploadedS3Keys ?st) = length (s3UrlMap ?st)"
    by (simp add: mr)
  have res: "mongo_fault env (tick w) (CountDocuments (id_field q)) = None \<and>
          (\<forall>d\<in>set (docs w). id_field (doc_fields d) \<noteq> id_field q) \<and>
          \<not> isl (snd (insert_run env w q)) \<longrightarrow>
            success (snd (uploadQuestionToDB env w q)) \<and>
            s3Urls (snd (uploadQuestionToDB env w q)) = Some (map_values (s3UrlMap ?st)) \<and>
            length (case s3Urls (snd (uploadQuestionToDB env w q)) of None \<Rightarrow> [] | Some l \<Rightarrow> l) +
            length (case failedImages (snd (uploadQuestionToDB env w q)) of None \<Rightarrow> [] | Some l \<Rightarrow> l) =
              length ?urls"
  proof
    assume a: "mongo_fault env (tick w) (CountDocuments (id_field q)) = None \<and>
          (\<forall>d\<in>set (docs w). id_field (doc_fields d) \<noteq> id_field q) \<and>
          \<not> isl (snd (insert_run env w q))"
    then obtain mongo_id where ins: "snd (insert_run env w q) = Inr mongo_id"
      by (cases "snd (insert_run env w q)") auto
    from a have a1: "mongo_fault env (tick w) (CountDocuments (id_field q)) = None"
      and a2: "\<forall>d\<in>set (docs w). id_field (doc_fields d) \<noteq> id_field q"
      by simp_all
    note run = uploadQuestionToDB_inserted [OF a1 a2 ins]
    show "success (snd (uploadQuestionToDB env w q)) \<and>
            s3Urls (snd (uploadQuestionToDB env w q)) = Some (map_values (s3UrlMap ?st)) \<and>
            length (case s3Urls (snd (uploadQuestionToDB env w q)) of None \<Rightarrow> [] | Some l \<Rightarrow> l) +
            length (case failedImages (snd (uploadQuestionToDB env w q)) of None \<Rightarrow> [] | Some l \<Rightarrow> l) =
              length ?urls"
      using ml(3)
      by (cases "failedList (snd (migration_run env w q)) = []") (simp_all add: run map_values_def)
  qed
  show ?thesis
    by (intro conjI) (rule step_failed step_uploaded m f k ml(1) lk ml(2) res)+
qed

theorem migration_bookkeeping_in_sync_witness:
  "list_all (parsed_url env_b_unreachable) (run_outcomes env_b_unreachable w0 q_two) \<and>
   s3UrlMap (snd (migration_run env_b_unreachable w0 q_two)) =
     [(''http://x/a.png'', ''https://bucket.s3.r1.amazonaws.com/questions/h2.png'')] \<and>
   uploadedS3Keys (snd (migration_run env_b_unreachable w0 q_two)) = [''questions/h2.png''] \<and>
   map url (failedList (snd (migration_run env_b_unreachable w0 q_two))) = [''http://x/b.png''] \<and>
   s3Urls (snd (uploadQuestionToDB env_b_unreachable w0 q_two)) =
     Some [''https://bucket.s3.r1.amazonaws.com/questions/h2.png''] \<and>
   length (case s3Urls (snd (uploadQuestionToDB env_b_unreachable w0 q_two)) of None \<Rightarrow> [] | Some l \<Rightarrow> l) +
   length (case failedImages (snd (uploadQuestionToDB env_b_unreachable w0 q_two)) of None \<Rightarrow> [] | Some l \<Rightarrow> l) =
     length (collectImageUrls q_two) \<and>
   length (collectImageUrls q_two) = 2"
proof -
  have h: "list_all (parsed_url env_b_unreachable) (run_outcomes env_b_unreachable w0 q_two)"
    by code_simp
  have g: "mongo_fault env_b_unreachable (tick w0) (CountDocuments (id_field q_two)) = None \<and>
          (\<forall>d\<in>set (docs w0). id_field (doc_fields d) \<noteq> id_field q_two) \<and>
          \<not> isl (snd (insert_run env_b_unreachable w0 q_two))"
    by code_simp
  have ev: "s3UrlMap (snd (migration_run env_b_unreachable w0 q_two)) =
     [(''http://x/a.png'', ''https://bucket.s3.r1.amazonaws.com/questions/h2.png'')]"
    "uploadedS3Keys (snd (migration_run env_b_unreachable w0 q_two)) = [''questions/h2.png'']"
    "map url (failedList (snd (migration_run env_b_unreachable w0 q_two))) = [''http://x/b.png'']"
    "length (collectImageUrls q_two) = 2"
    by code_simp+
  note t = migration_bookkeeping_in_sync [OF h]
  note res = t [THEN conjunct2, THEN conjunct2, THEN conjunct2, THEN conjunct2, THEN conjunct2,
      THEN conjunct2, THEN conjunct2, THEN conjunct2, THEN mp, OF g]
  have r2: "s3Urls (snd (uploadQuestionToDB env_b_unreachable w0 q_two)) =
     Some [''https://bucket.s3.r1.amazonaws.com/questions/h2.png'']"
    using res [THEN conjunct2, THEN conjunct1] by (simp add: ev map_values_def)
  note r3 = res [THEN conjunct2, THEN conjunct2]
  show ?thesis
    by (intro conjI) (rule h ev r2 r3)+
qed

section \<open>What is persisted\<close>

lemma replace_option_field:
  "replace_option m opt = opt\<lparr>image_url := replace_field m (image_url opt)\<rparr>"
  by (simp add: replace_option_def replace_field_def split: option.splits)

lemma content_images_replace:
  assumes "\<forall>u. get_or_url m u = f u"
  shows "content_images (replace_content_images m c) = map f (content_images c)"
  using assms
  by (simp add: content_images_def replace_content_images_def split: option.splits)

lemma option_refs_replace:
  assumes "\<forall>v. replace_field m v = map_option f v"
  shows "option_refs (replace_options m opts) = map f (option_refs opts)"
proof (cases opts)
  case None
  then show ?thesis by (simp add: option_refs_def replace_options_def)
next
  case (Some os)
  have "concat (map (\<lambda>opt. case image_url opt of None \<Rightarrow> [] | Some u \<Rightarrow> [u]) (map (replace_option m) os)) =
      map f (concat (map (\<lambda>opt. case image_url opt of None \<Rightarrow> [] | Some u \<Rightarrow> [u]) os))"
    using assms by (induction os) (auto simp: replace_option_field split: option.splits)
  then show ?thesis
    using Some by (simp add: option_refs_def replace_options_def)
qed

lemma sub_question_refs_replace:
  assumes "\<forall>u. get_or_url m u = f u" and "\<forall>v. replace_field m v = map_option f v"
  shows "sub_question_refs (map_option (map (replace_sub_question m)) sqs) = map f (sub_question_refs sqs)"
proof (cases sqs)
  case None
  then show ?thesis by (simp add: sub_question_refs_def)
next
  case (Some ss)
  have one: "content_images (sq_content (replace_sub_question m s)) @
        option_refs (sq_options (replace_sub_question m s)) =
      map f (content_images (sq_content s)) @ map f (option_refs (sq_options s))" for s
    using content_images_replace [OF assms(1)] option_refs_replace [OF assms(2)]
    by (simp add: replace_sub_question_def Let_def)
  have "concat (map (\<lambda>subQ. content_images (sq_content subQ) @ option_refs (sq_options subQ))
          (map (replace_sub_question m) ss)) =
      map f (concat (map (\<lambda>subQ. content_images (sq_content subQ) @ option_refs (sq_options subQ)) ss))"
    by (induction ss) (simp_all add: one)
  then show ?thesis
    using Some by (simp add: sub_question_refs_def)
qed

lemma image_refs_replaceImageUrls:
  assumes "\<forall>u. get_or_url m u = f u" and "\<forall>v. replace_field m v = map_option f v"
  shows "image_refs (replaceImageUrls q m) = map f (image_refs q)"
proof -
  have l: "(case replace_field m (imageUrl q) of None \<Rightarrow> [] | Some u \<Rightarrow> [u]) =
      map f (case imageUrl q of None \<Rightarrow> [] | Some u \<Rightarrow> [u])"
    using assms(2) by (simp split: option.splits)
  show ?thesis
    using l content_images_replace [OF assms(1)] option_refs_replace [OF assms(2)]
      sub_question_refs_replace [OF assms]
    by (simp add: image_refs_def replaceImageUrls_def Let_def)
qed

lemma map_of_migrated_fresh: "u \<notin> set urls \<Longrightarrow> map_of (migrated urls outs) u = None"
proof -
  assume "u \<notin> set urls"
  have "fst ` set (migrated urls outs) \<subseteq> set urls"
    using migrated_in_outcomes by (force dest: in_set_zipE)
  with \<open>u \<notin> set urls\<close> show ?thesis
    by (meson map_of_eq_None_iff subsetD)
qed

lemma map_of_migrated:
  assumes "length urls = length outs" and "distinct urls"
  shows "map_of (migrated urls outs) u =
     (case map_of (zip urls outs) u of Some (Inr s) \<Rightarrow> Some s | _ \<Rightarrow> None)"
  using assms
proof (induction urls outs rule: list_induct2)
  case Nil
  then show ?case by (simp add: migrated_Nil)
next
  case (Cons x xs r rs)
  then have ih: "map_of (migrated xs rs) u =
     (case map_of (zip xs rs) u of Some (Inr s) \<Rightarrow> Some s | _ \<Rightarrow> None)"
    and fresh: "map_of (migrated xs rs) x = None"
    using map_of_migrated_fresh [of x xs rs] by simp_all
  show ?case
    using ih fresh by (cases r) (auto simp: migrated_Cons)
qed

lemma resolved_rules:
  assumes "length urls = length outs" and "distinct urls"
    and "\<forall>s. Inr s \<in> set outs \<longrightarrow> s \<noteq> []" and "[] \<notin> set urls"
  shows "\<forall>u. get_or_url (migrated urls outs) u = resolved urls outs u"
    and "\<forall>v. replace_field (migrated urls outs) v = map_option (resolved urls outs) v"
    and "\<forall>u. map_get (migrated urls outs) u = None \<or>
             map_get (migrated urls outs) u = Some (resolved urls outs u) \<and> resolved urls outs u \<noteq> []"
proof -
  note mm = map_of_migrated [OF assms(1,2)]
  have val: "s \<noteq> []" if "map_of (zip urls outs) u = Some (Inr s)" for u s
  proof -
    from that have "(u, Inr s) \<in> set (zip urls outs)" by (rule map_of_SomeD)
    then have "Inr s \<in> set outs" by (rule in_set_zipE)
    with assms(3) show ?thesis by simp
  qed
  have key: "map_of (zip urls outs) [] = None"
  proof (cases "map_of (zip urls outs) []")
    case None
    then show ?thesis .
  next
    case (Some r)
    then have "([], r) \<in> set (zip urls outs)" by (rule map_of_SomeD)
    then have "[] \<in> set urls" by (rule in_set_zipE)
    with assms(4) show ?thesis by simp
  qed
  show g: "\<forall>u. get_or_url (migrated urls outs) u = resolved urls outs u"
    using val
    by (auto simp: get_or_url_def map_get_def mm resolved_def truthy_def split: option.splits sum.splits)
  show "\<forall>v. replace_field (migrated urls outs) v = map_option (resolved urls outs) v"
  proof
    fix v
    show "replace_field (migrated urls outs) v = map_option (resolved urls outs) v"
    proof (cases v)
      case None
      then show ?thesis by (simp add: replace_field_def)
    next
      case (Some u)
      show ?thesis
      proof (cases "u = []")
        case True
        then show ?thesis
          using Some key by (simp add: replace_field_def truthy_def resolved_def)
      next
        case False
        then show ?thesis
          using Some
          by (auto simp: replace_field_def truthy_def resolved_def map_has_def map_get_def mm
              split: option.splits sum.splits)
      qed
    qed
  qed
  show "\<forall>u. map_get (migrated urls outs) u = None \<or>
             map_get (migrated urls outs) u = Some (resolved urls outs u) \<and> resolved urls outs u \<noteq> []"
    using val by (auto simp: map_get_def mm resolved_def split: option.splits sum.splits)
qed

lemma resolved_outcome:
  assumes "length urls = length outs" and "distinct urls" and "(u, r) \<in> set (zip urls outs)"
  shows "resolved urls outs u = (case r of Inl e \<Rightarrow> u | Inr s \<Rightarrow> s)"
proof -
  have "distinct (map fst (zip urls outs))"
    using assms(1,2) by simp
  from map_of_is_SomeI [OF this assms(3)] show ?thesis
    by (simp add: resolved_def split: sum.splits)
qed

lemma not_migrated_in_outcomes:
  "x \<in> set (not_migrated urls outs) \<Longrightarrow>
   \<exists>u e. x = \<lparr>url = u, error = error_message e\<rparr> \<and> (u, Inl e) \<in> set (zip urls outs)"
  by (auto simp: not_migrated_def split: sum.splits)

lemma collectImageUrls_truthy: "[] \<notin> set (collectImageUrls q)"
  by (simp add: set_collectImageUrls trim_Nil)

lemma run_outcomes_truthy: "\<forall>s. Inr s \<in> set (run_outcomes env w q) \<longrightarrow> s \<noteq> []"
  unfolding run_outcomes_def using upload_outcomes_uploaded by blast

lemma saveQuestionToMongoDB_inserted:
  assumes "snd (saveQuestionToMongoDB env w q s) = Inr mongo_id"
  shows "docs (fst (saveQuestionToMongoDB env w q s)) =
     docs w @ [\<lparr>oid = mongo_id, doc_fields = q\<lparr>imageUrl := js_or s (imageUrl q)\<rparr>,
                uploadedAt = new_date env (tick w), originalImageUrl = imageUrl q,
                s3ImageUrl = js_or s (imageUrl q)\<rparr>]"
  using assms
  by (auto simp: saveQuestionToMongoDB_def mongo_call_def attempt_def Let_def split: option.splits)

lemma imageUrl_replaceImageUrls: "imageUrl (replaceImageUrls q m) = replace_field m (imageUrl q)"
  by (simp add: replaceImageUrls_def Let_def)

lemma stored_legacy_url:
  assumes "\<forall>v. replace_field m v = map_option f v"
    and "\<forall>u. map_get m u = None \<or> map_get m u = Some (f u) \<and> f u \<noteq> []"
  shows "js_or (case imageUrl q of None \<Rightarrow> None | Some u \<Rightarrow> map_get m u) (imageUrl (replaceImageUrls q m)) =
         imageUrl (replaceImageUrls q m)"
proof (cases "imageUrl q")
  case None
  then show ?thesis
    by (simp add: imageUrl_replaceImageUrls assms(1) js_or_def truthy_opt_def)
next
  case (Some u)
  from assms(2) have "map_get m u = None \<or> map_get m u = Some (f u) \<and> f u \<noteq> []"
    by simp
  then show ?thesis
    using Some
    by (auto simp: imageUrl_replaceImageUrls assms(1) js_or_def truthy_opt_def truthy_def)
qed

text \<open>
  The document of a successful upload. Its image references are the resolved references
  of the question. Its \<open>originalImageUrl\<close> is the resolved legacy reference too, the
  same value as \<open>s3ImageUrl\<close>: the legacy reference as the caller wrote it is stored only
  when it was not migrated.
\<close>

lemma insert_run_docs:
  assumes "list_all (parsed_url env) (run_outcomes env w q)"
    and "snd (insert_run env w q) = Inr mongo_id"
  shows "\<exists>d. docs (fst (insert_run env w q)) = docs w @ [d] \<and> oid d = mongo_id \<and>
           image_refs (doc_fields d) =
             map (resolved (collectImageUrls q) (run_outcomes env w q)) (image_refs q) \<and>
           originalImageUrl d =
             map_option (resolved (collectImageUrls q) (run_outcomes env w q)) (imageUrl q) \<and>
           s3ImageUrl d = originalImageUrl d"
proof -
  let ?urls = "collectImageUrls q" and ?outs = "run_outcomes env w q"
  let ?m = "migrated ?urls ?outs"
  let ?s = "case imageUrl q of None \<Rightarrow> None | Some u \<Rightarrow> map_get ?m u"
  let ?w2 = "upload_worlds env (after_check w q) ?urls"
  have len: "length ?urls = length ?outs"
    by (simp add: run_outcomes_def length_upload_outcomes)
  note rr = resolved_rules [OF len distinct_collectImageUrls run_outcomes_truthy collectImageUrls_truthy]
  have ir: "insert_run env w q = saveQuestionToMongoDB env ?w2 (replaceImageUrls q ?m) ?s"
    by (cases "imageUrl q") (simp_all add: insert_run_def migration_run_outcomes [OF assms(1)])
  have w2: "docs ?w2 = docs w"
    by (simp add: upload_worlds_docs after_check_def attempt_def)
  let ?d = "\<lparr>oid = mongo_id,
      doc_fields = (replaceImageUrls q ?m)\<lparr>imageUrl := js_or ?s (imageUrl (replaceImageUrls q ?m))\<rparr>,
      uploadedAt = new_date env (tick ?w2), originalImageUrl = imageUrl (replaceImageUrls q ?m),
      s3ImageUrl = js_or ?s (imageUrl (replaceImageUrls q ?m))\<rparr>"
  have d: "docs (fst (insert_run env w q)) = docs w @ [?d]"
    using saveQuestionToMongoDB_inserted [of env ?w2 "replaceImageUrls q ?m" ?s mongo_id] assms(2)
    by (simp add: ir w2)
  have "doc_fields ?d = replaceImageUrls q ?m"
    by (simp add: stored_legacy_url [OF rr(2,3)])
  then have "image_refs (doc_fields ?d) = map (resolved ?urls ?outs) (image_refs q)"
    using image_refs_replaceImageUrls [OF rr(1,2)] by simp
  moreover have "originalImageUrl ?d = map_option (resolved ?urls ?outs) (imageUrl q)"
    using rr(2) by (simp add: imageUrl_replaceImageUrls)
  moreover have "s3ImageUrl ?d = originalImageUrl ?d"
    by (simp add: stored_legacy_url [OF rr(2,3)])
  ultimately show ?thesis
    using d by (intro exI [of _ ?d]) simp
qed

lemma one_not_migrated:
  assumes "length urls = length outs" and "length (filter isl outs) = 1"
  shows "\<exists>u e. not_migrated urls outs = [\<lparr>url = u, error = error_message e\<rparr>] \<and>
           (u, Inl e) \<in> set (zip urls outs)"
proof -
  have "length (not_migrated urls outs) = 1"
    using length_migrated [OF assms(1)] assms(2) by simp
  then obtain x where x: "not_migrated urls outs = [x]"
    by (cases "not_migrated urls outs") auto
  then have "x \<in> set (not_migrated urls outs)" by simp
  from not_migrated_in_outcomes [OF this] x show ?thesis by auto
qed

lemma success_message_one:
  "success_message [x] =
     ''Successfully uploaded to database! Warning: 1 image(s) failed to upload to S3. The question was saved with original image URLs.''"
  by (simp add: success_message_def Let_def nat_str.simps digit_char_def)

text \<open>
  C3. The question is new, the platform's parser accepts the URLs returned by the
  uploads, the insert succeeds, and exactly one of the uploads fails (of any number of
  references, in particular of more than one). Then the function returns a success
  result; its \<open>failedImages\<close> holds exactly one entry, the failed reference with the
  message of its error; its message says that 1 image failed; \<open>s3Urls\<close> holds the
  object-store URLs of all the other references; and the document that was inserted
  shows, at each of the six locations, the reference it held before with the failed
  reference (and every string that is no reference) kept and every other reference
  replaced by its object-store URL.
\<close>

theorem one_failed_image_tolerated:
  assumes "mongo_fault env (tick w) (CountDocuments (id_field q)) = None"
    and "\<forall>d\<in>set (docs w). id_field (doc_fields d) \<noteq> id_field q"
    and "list_all (parsed_url env) (run_outcomes env w q)"
    and "snd (insert_run env w q) = Inr mongo_id"
    and "length (filter isl (run_outcomes env w q)) = 1"
  shows "success (snd (uploadQuestionToDB env w q)) \<and>
         mongoId (snd (uploadQuestionToDB env w q)) = Some mongo_id \<and>
         message (snd (uploadQuestionToDB env w q)) =
           ''Successfully uploaded to database! Warning: 1 image(s) failed to upload to S3. The question was saved with original image URLs.'' \<and>
         (\<exists>u e. failedImages (snd (uploadQuestionToDB env w q)) = Some [\<lparr>url = u, error = error_message e\<rparr>] \<and>
                (u, Inl e) \<in> set (zip (collectImageUrls q) (run_outcomes env w q))) \<and>
         s3Urls (snd (uploadQuestionToDB env w q)) =
           Some (map snd (migrated (collectImageUrls q) (run_outcomes env w q))) \<and>
         length (migrated (collectImageUrls q) (run_outcomes env w q)) + 1 = length (collectImageUrls q) \<and>
         (\<exists>d. docs (fst (uploadQuestionToDB env w q)) = docs w @ [d] \<and> oid d = mongo_id \<and>
              image_refs (doc_fields d) =
                map (resolved (collectImageUrls q) (run_outcomes env w q)) (image_refs q)) \<and>
         (\<forall>(u, x)\<in>set (zip (collectImageUrls q) (run_outcomes env w q)).
            resolved (collectImageUrls q) (run_outcomes env w q) u = (case x of Inl e \<Rightarrow> u | Inr s \<Rightarrow> s)) \<and>
         (\<forall>u. u \<notin> set (collectImageUrls q) \<longrightarrow>
            resolved (collectImageUrls q) (run_outcomes env w q) u = u)"
proof -
  let ?urls = "collectImageUrls q" and ?outs = "run_outcomes env w q"
  let ?r = "snd (uploadQuestionToDB env w q)"
  have len: "length ?urls = length ?outs"
    by (simp add: run_outcomes_def length_upload_outcomes)
  note run = uploadQuestionToDB_inserted [OF assms(1,2,4)]
  note mr = migration_run_outcomes [OF assms(3)]
  obtain u e where fl: "not_migrated ?urls ?outs = [\<lparr>url = u, error = error_message e\<rparr>]"
    and ue: "(u, Inl e) \<in> set (zip ?urls ?outs)"
    using one_not_migrated [OF len assms(5)] by blast
  have c1: "success ?r" and c2: "mongoId ?r = Some mongo_id"
    by (simp_all add: run)
  have c3: "message ?r =
           ''Successfully uploaded to database! Warning: 1 image(s) failed to upload to S3. The question was saved with original image URLs.''"
    by (simp add: run mr fl success_message_one)
  have c4: "\<exists>u e. failedImages ?r = Some [\<lparr>url = u, error = error_message e\<rparr>] \<and>
                (u, Inl e) \<in> set (zip ?urls ?outs)"
    using ue by (auto simp: run mr fl)
  have c5: "s3Urls ?r = Some (map snd (migrated ?urls ?outs))"
    by (simp add: run mr map_values_def)
  have c6: "length (migrated ?urls ?outs) + 1 = length ?urls"
    using length_migrated [OF len] assms(5) sum_length_filter_compl [of isl ?outs]
    by (simp add: len)
  have c7: "\<exists>d. docs (fst (uploadQuestionToDB env w q)) = docs w @ [d] \<and> oid d = mongo_id \<and>
              image_refs (doc_fields d) = map (resolved ?urls ?outs) (image_refs q)"
    using insert_run_docs [OF assms(3,4)] by (auto simp: run)
  have c8: "\<forall>(u, x)\<in>set (zip ?urls ?outs).
            resolved ?urls ?outs u = (case x of Inl e \<Rightarrow> u | Inr s \<Rightarrow> s)"
    using resolved_outcome [OF len distinct_collectImageUrls] by auto
  have c9: "\<forall>u. u \<notin> set ?urls \<longrightarrow> resolved ?urls ?outs u = u"
  proof (intro allI impI)
    fix u assume "u \<notin> set ?urls"
    then have "map_of (zip ?urls ?outs) u = None"
      by (metis in_set_zipE map_of_SomeD not_Some_eq)
    then show "resolved ?urls ?outs u = u"
      by (simp add: resolved_def)
  qed
  show ?thesis
    by (intro conjI) (rule c1 c2 c3 c4 c5 c6 c7 c8 c9)+
qed

theorem one_failed_image_tolerated_witness:
  "list_all (parsed_url env_b_unreachable) (run_outcomes env_b_unreachable w0 q_two) \<and>
   snd (insert_run env_b_unreachable w0 q_two) = Inr ''oid4'' \<and>
   collectImageUrls q_two = [''http://x/a.png'', ''http://x/b.png''] \<and>
   run_outcomes env_b_unreachable w0 q_two =
     [Inr ''https://bucket.s3.r1.amazonaws.com/questions/h2.png'',
      Inl (Error ''Failed to download image from http://x/b.png: Not Found'')] \<and>
   success (snd (uploadQuestionToDB env_b_unreachable w0 q_two)) \<and>
   message (snd (uploadQuestionToDB env_b_unreachable w0 q_two)) =
     ''Successfully uploaded to database! Warning: 1 image(s) failed to upload to S3. The question was saved with original image URLs.'' \<and>
   failedImages (snd (uploadQuestionToDB env_b_unreachable w0 q_two)) =
     Some [\<lparr>url = ''http://x/b.png'',
            error = Some ''Failed to download image from http://x/b.png: Not Found''\<rparr>] \<and>
   s3Urls (snd (uploadQuestionToDB env_b_unreachable w0 q_two)) =
     Some [''https://bucket.s3.r1.amazonaws.com/questions/h2.png''] \<and>
   map (\<lambda>d. image_refs (doc_fields d)) (docs (fst (uploadQuestionToDB env_b_unreachable w0 q_two))) =
     [[''https://bucket.s3.r1.amazonaws.com/questions/h2.png'', ''http://x/b.png'']]"
proof -
  have h1: "mongo_fault env_b_unreachable (tick w0) (CountDocuments (id_field q_two)) = None"
    by code_simp
  have h2: "\<forall>d\<in>set (docs w0). id_field (doc_fields d) \<noteq> id_field q_two"
    by (simp add: w0_def)
  have h3: "list_all (parsed_url env_b_unreachable) (run_outcomes env_b_unreachable w0 q_two)"
    by code_simp
  have h4: "snd (insert_run env_b_unreachable w0 q_two) = Inr ''oid4''"
    by code_simp
  have h5: "length (filter isl (run_outcomes env_b_unreachable w0 q_two)) = 1"
    by code_simp
  have ev: "collectImageUrls q_two = [''http://x/a.png'', ''http://x/b.png'']"
    "run_outcomes env_b_unreachable w0 q_two =
     [Inr ''https://bucket.s3.r1.amazonaws.com/questions/h2.png'',
      Inl (Error ''Failed to download image from http://x/b.png: Not Found'')]"
    "image_refs q_two = [''http://x/a.png'', ''http://x/b.png'']"
    "docs w0 = []"
    by code_simp+
  note t = one_failed_image_tolerated [OF h1 h2 h3 h4 h5]
  note t1 = t [THEN conjunct1]
  note t3 = t [THEN conjunct2, THEN conjunct2, THEN conjunct1]
  note t4 = t [THEN conjunct2, THEN conjunct2, THEN conjunct2, THEN conjunct1]
  note t5 = t [THEN conjunct2, THEN conjunct2, THEN conjunct2, THEN conjunct2, THEN conjunct1]
  note t7 = t [THEN conjunct2, THEN conjunct2, THEN conjunct2, THEN conjunct2, THEN conjunct2,
      THEN conjunct2, THEN conjunct1]
  have c4: "failedImages (snd (uploadQuestionToDB env_b_unreachable w0 q_two)) =
     Some [\<lparr>url = ''http://x/b.png'',
            error = Some ''Failed to download image from http://x/b.png: Not Found''\<rparr>]"
    using t4 unfolding ev by (auto simp: error_message_def)
  have c5: "s3Urls (snd (uploadQuestionToDB env_b_unreachable w0 q_two)) =
     Some [''https://bucket.s3.r1.amazonaws.com/questions/h2.png'']"
    unfolding t5 ev by (simp add: migrated_def)
  have c7: "map (\<lambda>d. image_refs (doc_fields d)) (docs (fst (uploadQuestionToDB env_b_unreachable w0 q_two))) =
     [[''https://bucket.s3.r1.amazonaws.com/questions/h2.png'', ''http://x/b.png'']]"
    using t7 unfolding ev by (auto simp: resolved_def)
  show ?thesis
    by (intro conjI) (rule h3 h4 ev(1) ev(2) t1 t3 c4 c5 c7)+
qed

end
